theory Spec2Isabelle
  imports Complex_Main
begin

section \<open>Floating-point values\<close>

text \<open>
  The notebook computes on numpy/pandas float64 columns. A cell is modelled as an exact
  real, one of the two infinities, or NaN (pandas' marker of a missing entry). Zero
  carries no sign. The sign of a zero matters only for the sign of an infinite quotient;
  the zero divisors of the notebook are +0, except the mean loss of the RSI, which can
  be -0, and there both infinities lead to the same RSI.
  The arithmetic below follows IEEE 754 on these values: any operation on NaN is NaN,
  \<open>inf - inf\<close>, \<open>0 * inf\<close>, \<open>0 / 0\<close> and \<open>inf / inf\<close> are NaN, a non-zero finite
  value divided by zero is an infinity, and every comparison with NaN is false.
  numpy and pandas return these values (with at most a RuntimeWarning); they do not raise.

  The operations \<open>fadd\<close>, \<open>fsub\<close>, \<open>fmul\<close>, \<open>fdiv\<close> are exact on finite values; the
  indicator engine is written with them, and what is proved of it (which entries are
  missing, and a bound that rounding keeps) does not depend on the last bit. The signal
  decision and the scaler compare computed values with constants, so they are written
  with the operations rounded to binary64, \<open>fadd64\<close> ... \<open>fdiv64\<close>, defined below.
\<close>

datatype fl = Fin real | PInf | NInf | NaN

fun fneg :: "fl \<Rightarrow> fl" where
  "fneg (Fin x) = Fin (- x)"
| "fneg PInf = NInf"
| "fneg NInf = PInf"
| "fneg NaN = NaN"

fun fadd :: "fl \<Rightarrow> fl \<Rightarrow> fl" where
  "fadd NaN _ = NaN"
| "fadd _ NaN = NaN"
| "fadd (Fin x) (Fin y) = Fin (x + y)"
| "fadd PInf NInf = NaN"
| "fadd NInf PInf = NaN"
| "fadd PInf _ = PInf"
| "fadd _ PInf = PInf"
| "fadd NInf _ = NInf"
| "fadd _ NInf = NInf"

definition fsub :: "fl \<Rightarrow> fl \<Rightarrow> fl" where
  "fsub a b = fadd a (fneg b)"

fun fmul :: "fl \<Rightarrow> fl \<Rightarrow> fl" where
  "fmul NaN _ = NaN"
| "fmul _ NaN = NaN"
| "fmul (Fin x) (Fin y) = Fin (x * y)"
| "fmul PInf (Fin y) = (if y = 0 then NaN else if 0 < y then PInf else NInf)"
| "fmul NInf (Fin y) = (if y = 0 then NaN else if 0 < y then NInf else PInf)"
| "fmul (Fin x) PInf = (if x = 0 then NaN else if 0 < x then PInf else NInf)"
| "fmul (Fin x) NInf = (if x = 0 then NaN else if 0 < x then NInf else PInf)"
| "fmul PInf PInf = PInf"
| "fmul NInf NInf = PInf"
| "fmul PInf NInf = NInf"
| "fmul NInf PInf = NInf"

fun fdiv :: "fl \<Rightarrow> fl \<Rightarrow> fl" where
  "fdiv NaN _ = NaN"
| "fdiv _ NaN = NaN"
| "fdiv (Fin x) (Fin y) =
     (if y = 0 then (if x = 0 then NaN else if 0 < x then PInf else NInf)
      else Fin (x / y))"
| "fdiv (Fin x) PInf = Fin 0"
| "fdiv (Fin x) NInf = Fin 0"
| "fdiv PInf (Fin y) = (if 0 \<le> y then PInf else NInf)"
| "fdiv NInf (Fin y) = (if 0 \<le> y then NInf else PInf)"
| "fdiv PInf PInf = NaN"
| "fdiv PInf NInf = NaN"
| "fdiv NInf PInf = NaN"
| "fdiv NInf NInf = NaN"

fun flt :: "fl \<Rightarrow> fl \<Rightarrow> bool" where
  "flt NaN _ = False"
| "flt _ NaN = False"
| "flt (Fin x) (Fin y) = (x < y)"
| "flt (Fin x) PInf = True"
| "flt (Fin x) NInf = False"
| "flt PInf _ = False"
| "flt NInf NInf = False"
| "flt NInf _ = True"

definition fgt :: "fl \<Rightarrow> fl \<Rightarrow> bool" where
  "fgt a b = flt b a"

fun fabs :: "fl \<Rightarrow> fl" where
  "fabs (Fin x) = Fin \<bar>x\<bar>"
| "fabs PInf = PInf"
| "fabs NInf = PInf"
| "fabs NaN = NaN"

text \<open>\<open>np.maximum\<close>: the larger of two values, NaN when either is NaN.\<close>

definition fmaximum :: "fl \<Rightarrow> fl \<Rightarrow> fl" where
  "fmaximum a b = (if a = NaN \<or> b = NaN then NaN else if flt a b then b else a)"

definition isnan :: "fl \<Rightarrow> bool" where
  "isnan x = (x = NaN)"

definition isinf :: "fl \<Rightarrow> bool" where
  "isinf x = (x = PInf \<or> x = NInf)"

definition isfinite :: "fl \<Rightarrow> bool" where
  "isfinite x = (case x of Fin _ \<Rightarrow> True | _ \<Rightarrow> False)"

section \<open>Binary64 rounding\<close>

text \<open>
  IEEE 754 double precision, round to nearest, ties to even: a real is rounded to the
  nearest multiple of the unit in the last place of its binade (53 significant bits, the
  exponent not below -1022, so that the smallest binade is the subnormal one), and a
  result of magnitude \<open>2 ^ 1024\<close> or more overflows to an infinity.
\<close>

definition round_even :: "real \<Rightarrow> int" where
  "round_even x =
     (let f = \<lfloor>x\<rfloor>; d = x - of_int f
      in if d < 1 / 2 then f else if 1 / 2 < d then f + 1 else if even f then f else f + 1)"

definition exponent64 :: "real \<Rightarrow> int" where
  "exponent64 x = max \<lfloor>log 2 \<bar>x\<bar>\<rfloor> (- 1022)"

definition ulp64 :: "real \<Rightarrow> real" where
  "ulp64 x = 2 powr of_int (exponent64 x - 52)"

definition rd64 :: "real \<Rightarrow> real" where
  "rd64 x = (if x = 0 then 0 else of_int (round_even (x / ulp64 x)) * ulp64 x)"

definition rnd64 :: "real \<Rightarrow> fl" where
  "rnd64 x = (if 2 ^ 1024 \<le> \<bar>rd64 x\<bar> then (if 0 < x then PInf else NInf) else Fin (rd64 x))"

text \<open>
  The float64 operations: the exact result of two finite operands is rounded; every other
  case is as in the exact operations above.
\<close>

definition fadd64 :: "fl \<Rightarrow> fl \<Rightarrow> fl" where
  "fadd64 a b = (case (a, b) of (Fin x, Fin y) \<Rightarrow> rnd64 (x + y) | _ \<Rightarrow> fadd a b)"

definition fsub64 :: "fl \<Rightarrow> fl \<Rightarrow> fl" where
  "fsub64 a b = fadd64 a (fneg b)"

definition fmul64 :: "fl \<Rightarrow> fl \<Rightarrow> fl" where
  "fmul64 a b = (case (a, b) of (Fin x, Fin y) \<Rightarrow> rnd64 (x * y) | _ \<Rightarrow> fmul a b)"

definition fdiv64 :: "fl \<Rightarrow> fl \<Rightarrow> fl" where
  "fdiv64 a b =
     (case (a, b) of
        (Fin x, Fin y) \<Rightarrow> if y = 0 then fdiv a b else rnd64 (x / y)
      | _ \<Rightarrow> fdiv a b)"

section \<open>The table\<close>

text \<open>
  A row of the DataFrame \<open>data\<close>: the twelve columns named in the list \<open>features\<close>,
  and the remaining columns (the raw file's columns, \<open>High\<close>, \<open>Low\<close>, \<open>Open\<close>), which the
  code below reads only in \<open>dropna\<close>: \<open>other_na\<close> tells for each of them whether the
  row's cell is missing.
\<close>

record row =
  Close :: fl
  Volume :: fl
  RSI :: fl
  MACD :: fl
  MACD_signal :: fl
  Stoch_k :: fl
  Stoch_d :: fl
  OBV :: fl
  Upper_BB :: fl
  Lower_BB :: fl
  ATR :: fl
  ADX :: fl
  other_na :: "bool list"

text \<open>
  \<open>df[features].values\<close> on one row: the twelve feature cells, in the order of the list.
\<close>

definition features :: "row \<Rightarrow> fl list" where
  "features r = [Close r, Volume r, RSI r, MACD r, MACD_signal r, Stoch_k r, Stoch_d r,
                 OBV r, Upper_BB r, Lower_BB r, ATR r, ADX r]"

text \<open>
  \<open>df[features] = m\<close> on one row: the twelve feature cells are overwritten. The matrix
  written back always has twelve columns; any other list leaves the row as it is.
\<close>

fun set_features :: "row \<Rightarrow> fl list \<Rightarrow> row" where
  "set_features r [c, v, rsi, macd, macd_s, sk, sd, obv, ub, lb, atr, adx] =
     r\<lparr>Close := c, Volume := v, RSI := rsi, MACD := macd, MACD_signal := macd_s,
       Stoch_k := sk, Stoch_d := sd, OBV := obv, Upper_BB := ub, Lower_BB := lb,
       ATR := atr, ADX := adx\<rparr>"
| "set_features r _ = r"

datatype error = ValueError | IndexError

datatype signal = BUY | SELL | HOLD

section \<open>Forecaster\<close>

text \<open>
  The weights of \<open>TransformerModel\<close> are learned, so the network is a parameter: \<open>net w\<close> is
  the scalar the model yields for one window \<open>w\<close> (a sequence of feature vectors of any
  length: projection of each vector, encoder stack over the sequence, mean over the time
  axis, final projection; the conversion to float32 is part of \<open>net\<close>). In evaluation mode
  the encoder treats the elements of a batch independently, so \<open>forward\<close> on a batch is
  \<open>net\<close> on each window. A rank-2 input is one window and is promoted to a batch of one.
\<close>

datatype tensor = Rank2 "fl list list" | Rank3 "fl list list list"

fun tensor_dim :: "tensor \<Rightarrow> nat" where
  "tensor_dim (Rank2 _) = 2"
| "tensor_dim (Rank3 _) = 3"

text \<open>\<open>x.unsqueeze(0)\<close>: shape (S, F) becomes (1, S, F).\<close>

fun unsqueeze0 :: "tensor \<Rightarrow> tensor" where
  "unsqueeze0 (Rank2 w) = Rank3 [w]"
| "unsqueeze0 t = t"

text \<open>\<open>x.unsqueeze(1)\<close>: shape (B, F) becomes (B, 1, F), every row a window of one step.\<close>

fun unsqueeze1 :: "tensor \<Rightarrow> tensor" where
  "unsqueeze1 (Rank2 rs) = Rank3 (map (\<lambda>r. [r]) rs)"
| "unsqueeze1 t = t"

fun windows_of :: "tensor \<Rightarrow> fl list list list" where
  "windows_of (Rank3 ws) = ws"
| "windows_of (Rank2 w) = [w]"

definition forward :: "(fl list list \<Rightarrow> fl) \<Rightarrow> tensor \<Rightarrow> fl list" where
  "forward net src =
     (let src = (if tensor_dim src = 2 then unsqueeze0 src else src)
      in map net (windows_of src))"

section \<open>Signal generator\<close>

function py_range :: "nat \<Rightarrow> nat \<Rightarrow> nat \<Rightarrow> nat list" where
  "py_range i stop step =
     (if step = 0 then [] else if i < stop then i # py_range (i + step) stop step else [])"
  by pat_completeness auto
termination
  by (relation "measure (\<lambda>(i, stop, step). stop - i)") auto

declare py_range.simps [simp del]

text \<open>\<open>data.iloc[i:i+batch_size]\<close> with \<open>0 \<le> i\<close>: the slice is cut at the end of the table.\<close>

definition iloc_slice :: "'a list \<Rightarrow> nat \<Rightarrow> nat \<Rightarrow> 'a list" where
  "iloc_slice xs a b = take (b - a) (drop a xs)"

definition process_batch :: "(fl list list \<Rightarrow> fl) \<Rightarrow> fl list list \<Rightarrow> nat \<Rightarrow> fl list \<times> nat" where
  "process_batch net batch start_idx =
     (let x = Rank2 batch;
          x = (if tensor_dim x = 2 then unsqueeze1 x else x);
          preds = forward net x
      in (preds, start_idx))"

text \<open>
  The comparison of one prediction with the realized Close:
  \<open>pred / close - 1 > threshold_buy\<close>, else \<open>pred / close - 1 < threshold_sell\<close>, else
  HOLD. \<open>data.iloc[i+60]['Close']\<close> is a numpy float64; dividing the float32 prediction
  by it gives a float64 (the prediction is widened without loss), so the quotient, the
  difference and both comparisons are float64 operations: the quotient is rounded, then
  the difference. This is the promotion of NumPy 2; the value-based promotion of older
  versions, which keeps a float32 array float32, is not modelled. The thresholds are the
  decimal values written in the call; Python holds each as the nearest double.
\<close>

definition decide :: "real \<Rightarrow> real \<Rightarrow> fl \<Rightarrow> fl \<Rightarrow> signal" where
  "decide threshold_buy threshold_sell pred close =
     (if fgt (fsub64 (fdiv64 pred close) (Fin 1)) (rnd64 threshold_buy) then BUY
      else if flt (fsub64 (fdiv64 pred close) (Fin 1)) (rnd64 threshold_sell) then SELL
      else HOLD)"

text \<open>
  The inner loop \<open>for j, pred in enumerate(preds)\<close>, with its \<open>break\<close>; the accumulator is
  the pair of lists \<open>signals\<close>, \<open>predictions\<close>.
\<close>

fun inner_loop ::
  "row list \<Rightarrow> real \<Rightarrow> real \<Rightarrow> nat \<Rightarrow> nat \<Rightarrow> fl list \<Rightarrow> signal list \<times> fl list
     \<Rightarrow> signal list \<times> fl list" where
  "inner_loop data tb ts batch_start_idx j [] acc = acc"
| "inner_loop data tb ts batch_start_idx j (pred # preds) (signals, predictions) =
     (let i = batch_start_idx + j in
      if i + 60 \<ge> length data then (signals, predictions)
      else inner_loop data tb ts batch_start_idx (j + 1) preds
             (signals @ [decide tb ts pred (Close (data ! (i + 60)))],
              predictions @ [pred]))"

fun outer_loop ::
  "(fl list list \<Rightarrow> fl) \<Rightarrow> row list \<Rightarrow> real \<Rightarrow> real \<Rightarrow> (fl list list \<times> nat) list
     \<Rightarrow> signal list \<times> fl list \<Rightarrow> signal list \<times> fl list" where
  "outer_loop net data tb ts [] acc = acc"
| "outer_loop net data tb ts ((batch, start_idx) # batches) acc =
     (case process_batch net batch start_idx of
        (preds, batch_start_idx) \<Rightarrow>
          outer_loop net data tb ts batches
            (inner_loop data tb ts batch_start_idx 0 preds acc))"

text \<open>
  \<open>range(0, len(data) - 60, batch_size)\<close> raises ValueError for a zero step and is empty
  when \<open>len(data) - 60 \<le> 0\<close> (the truncated subtraction on naturals gives the same
  empty range).
\<close>

definition generate_signals_batch ::
  "(fl list list \<Rightarrow> fl) \<Rightarrow> row list \<Rightarrow> nat \<Rightarrow> real \<Rightarrow> real
     \<Rightarrow> error + (signal list \<times> fl list)" where
  "generate_signals_batch net data batch_size threshold_buy threshold_sell =
     (if batch_size = 0 then Inl ValueError
      else
        let batches = map (\<lambda>i. (map features (iloc_slice data i (i + batch_size)), i))
                          (py_range 0 (length data - 60) batch_size)
        in Inr (outer_loop net data threshold_buy threshold_sell batches ([], [])))"

text \<open>
  The notebook's last cell: the call with the default arguments and the two column
  assignments. pandas raises ValueError when the assigned list is not as long as the table.
\<close>

record labelled =
  rows :: "row list"
  Signal :: "signal list"
  Prediction :: "fl option list"

definition label_table :: "(fl list list \<Rightarrow> fl) \<Rightarrow> row list \<Rightarrow> error + labelled" where
  "label_table net data =
     (case generate_signals_batch net data 512 0.005 (- 0.005) of
        Inl e \<Rightarrow> Inl e
      | Inr (signals, predictions) \<Rightarrow>
          (let sig_col = replicate 60 HOLD @ signals;
               pred_col = replicate 60 None @ map Some predictions
           in if length sig_col \<noteq> length data then Inl ValueError
              else if length pred_col \<noteq> length data then Inl ValueError
              else Inr \<lparr>rows = data, Signal = sig_col, Prediction = pred_col\<rparr>))"

section \<open>Min-max scaling\<close>

text \<open>
  \<open>sklearn.preprocessing.MinMaxScaler\<close> with the default range (0, 1), as the notebook
  uses it. \<open>fit\<close> refuses a table without rows and a table holding an infinity
  (ValueError); NaN cells are ignored by the column minimum and maximum (\<open>nanmin\<close>,
  \<open>nanmax\<close>) and stay NaN. A column whose range is below ten machine epsilons is scaled
  by 1, so it maps to zeros. \<open>transform\<close> computes \<open>x * scale + min\<close> in every cell.
  The column minimum and maximum are taken after the check for infinities, over the
  finite cells. The range, the scale, the offset and the transformed cells are float64
  results: \<open>range = max - min\<close>, \<open>scale = 1 / range\<close>, \<open>min_ = 0 - min * scale\<close>.
\<close>

fun finite_vals :: "fl list \<Rightarrow> real list" where
  "finite_vals [] = []"
| "finite_vals (Fin v # xs) = v # finite_vals xs"
| "finite_vals (_ # xs) = finite_vals xs"

definition nanmin :: "fl list \<Rightarrow> fl" where
  "nanmin col = (case finite_vals col of [] \<Rightarrow> NaN | v # vs \<Rightarrow> Fin (Min (set (v # vs))))"

definition nanmax :: "fl list \<Rightarrow> fl" where
  "nanmax col = (case finite_vals col of [] \<Rightarrow> NaN | v # vs \<Rightarrow> Fin (Max (set (v # vs))))"

definition eps :: real where
  "eps = 1 / 2 ^ 52"

definition handle_zeros_in_scale :: "fl \<Rightarrow> fl" where
  "handle_zeros_in_scale s = (if flt s (Fin (10 * eps)) then Fin 1 else s)"

record MinMaxScaler =
  sc_scale :: "fl list"
  sc_min :: "fl list"

definition column :: "fl list list \<Rightarrow> nat \<Rightarrow> fl list" where
  "column X j = map (\<lambda>r. r ! j) X"

definition col_scale :: "fl list \<Rightarrow> fl" where
  "col_scale col = fdiv64 (Fin 1) (handle_zeros_in_scale (fsub64 (nanmax col) (nanmin col)))"

definition col_min :: "fl list \<Rightarrow> fl" where
  "col_min col = fsub64 (Fin 0) (fmul64 (nanmin col) (col_scale col))"

definition fit :: "fl list list \<Rightarrow> error + MinMaxScaler" where
  "fit X =
     (case X of
        [] \<Rightarrow> Inl ValueError
      | r0 # _ \<Rightarrow>
          if list_ex (list_ex isinf) X then Inl ValueError
          else Inr \<lparr>sc_scale = map (\<lambda>j. col_scale (column X j)) [0..<length r0],
                    sc_min = map (\<lambda>j. col_min (column X j)) [0..<length r0]\<rparr>)"

definition transform :: "MinMaxScaler \<Rightarrow> fl list list \<Rightarrow> fl list list" where
  "transform sc X =
     map (\<lambda>r. map (\<lambda>j. fadd64 (fmul64 (r ! j) (sc_scale sc ! j)) (sc_min sc ! j)) [0..<length r]) X"

definition fit_transform :: "fl list list \<Rightarrow> error + (MinMaxScaler \<times> fl list list)" where
  "fit_transform X =
     (case fit X of Inl e \<Rightarrow> Inl e | Inr sc \<Rightarrow> Inr (sc, transform sc X))"

text \<open>
  The notebook's normalizing cell: one scaler fitted on the feature columns of the whole
  table, the transformed values written back into the table. \<open>generate_signals_batch\<close>
  later reads this table.
\<close>

definition normalize :: "row list \<Rightarrow> error + row list" where
  "normalize data =
     (case fit_transform (map features data) of
        Inl e \<Rightarrow> Inl e
      | Inr (sc, m) \<Rightarrow> Inr (map2 set_features data m))"

text \<open>One column through \<open>fit\<close> and \<open>transform\<close>, as the properties below state it.\<close>

definition rescale_col :: "fl list \<Rightarrow> fl list" where
  "rescale_col col = map (\<lambda>x. fadd64 (fmul64 x (col_scale col)) (col_min col)) col"

section \<open>Windowing dataset\<close>

text \<open>
  \<open>df.dropna()\<close> keeps the rows without a missing cell in any column (an infinity is
  not missing); \<open>reset_index(drop=True)\<close> renumbers them from 0, which the list does.
\<close>

definition dropna :: "row list \<Rightarrow> row list" where
  "dropna data = filter (\<lambda>r. \<not> list_ex isnan (features r) \<and> \<not> list_ex (\<lambda>b. b) (other_na r)) data"

record TradeDataset =
  td_data :: "row list"
  seq_len :: nat
  td_scaler :: MinMaxScaler

definition TradeDataset_init :: "row list \<Rightarrow> nat \<Rightarrow> error + TradeDataset" where
  "TradeDataset_init data sl =
     (let d = dropna data in
      case fit_transform (map features d) of
        Inl e \<Rightarrow> Inl e
      | Inr (sc, m) \<Rightarrow> Inr \<lparr>td_data = map2 set_features d m, seq_len = sl, td_scaler = sc\<rparr>)"

text \<open>\<open>__len__\<close>: a Python integer, negative when fewer rows than \<open>seq_len\<close> remain.\<close>

definition td_len :: "TradeDataset \<Rightarrow> int" where
  "td_len self = int (length (td_data self)) - int (seq_len self)"

text \<open>
  Python slicing \<open>xs[a:b]\<close> (and \<open>df.iloc[a:b]\<close>): a negative bound counts from the end,
  both bounds are clipped to the list, and the slice never raises.
\<close>

definition clip_index :: "nat \<Rightarrow> int \<Rightarrow> nat" where
  "clip_index n a = (if a < 0 then nat (max (a + int n) 0) else min (nat a) n)"

definition py_slice :: "'a list \<Rightarrow> int \<Rightarrow> int \<Rightarrow> 'a list" where
  "py_slice xs a b =
     (let lo = clip_index (length xs) a; hi = clip_index (length xs) b
      in take (hi - lo) (drop lo xs))"

text \<open>
  \<open>df.iloc[k]\<close> with one integer: a negative position counts from the end, and a
  position outside the table raises IndexError.
\<close>

definition iloc_row :: "'a list \<Rightarrow> int \<Rightarrow> error + 'a" where
  "iloc_row xs k =
     (let n = int (length xs); j = (if k < 0 then k + n else k)
      in if 0 \<le> j \<and> j < n then Inr (xs ! nat j) else Inl IndexError)"

text \<open>
  \<open>__getitem__\<close>: the feature matrix of the slice and the Close of the row after it
  (the float64 numbers from which the float32 tensors are built).
\<close>

definition td_getitem :: "TradeDataset \<Rightarrow> int \<Rightarrow> error + (fl list list \<times> fl)" where
  "td_getitem self idx =
     (let x = map features (py_slice (td_data self) idx (idx + int (seq_len self)))
      in case iloc_row (td_data self) (idx + int (seq_len self)) of
           Inl e \<Rightarrow> Inl e
         | Inr r \<Rightarrow> Inr (x, Close r))"

section \<open>Indicator engine\<close>

text \<open>
  A pandas Series is the list of its cells; all series of one call share the table's
  index, so element-wise operations pair equal positions.
\<close>

text \<open>\<open>s.diff()\<close>: NaN first, then each cell minus its predecessor.\<close>

definition series_diff :: "fl list \<Rightarrow> fl list" where
  "series_diff s = (case s of [] \<Rightarrow> [] | x # xs \<Rightarrow> NaN # map2 (\<lambda>a b. fsub b a) s xs)"

text \<open>\<open>s.shift()\<close>: NaN first, then the cells moved down by one.\<close>

definition series_shift :: "fl list \<Rightarrow> fl list" where
  "series_shift s = (case s of [] \<Rightarrow> [] | x # xs \<Rightarrow> NaN # butlast s)"

text \<open>
  Every pandas window operation (rolling and exponentially weighted) first replaces the
  infinite cells of its input by NaN.
\<close>

definition prep_values :: "fl list \<Rightarrow> fl list" where
  "prep_values s = map (\<lambda>x. if isinf x then NaN else x) s"

text \<open>
  \<open>s.rolling(window=w)\<close>: the window at position t holds the last w cells up to t (fewer
  at the start). With the default \<open>min_periods = w\<close> the result is NaN unless the window
  holds w cells that are not NaN. The aggregate of a full window is computed from its
  cells directly.
\<close>

definition window_at :: "nat \<Rightarrow> fl list \<Rightarrow> nat \<Rightarrow> fl list" where
  "window_at w s t = drop (Suc t - w) (take (Suc t) s)"

definition rolling :: "nat \<Rightarrow> (fl list \<Rightarrow> fl) \<Rightarrow> fl list \<Rightarrow> fl list" where
  "rolling w agg s =
     (let vals = prep_values s
      in map (\<lambda>t. let win = window_at w vals t
                  in if length (filter (\<lambda>x. \<not> isnan x) win) < w then NaN else agg win)
             [0..<length s])"

definition fsum :: "fl list \<Rightarrow> fl" where
  "fsum xs = foldl fadd (Fin 0) xs"

definition fmean :: "fl list \<Rightarrow> fl" where
  "fmean xs = fdiv (fsum xs) (Fin (real (length xs)))"

fun fsqrt :: "fl \<Rightarrow> fl" where
  "fsqrt (Fin x) = (if x < 0 then NaN else Fin (sqrt x))"
| "fsqrt PInf = PInf"
| "fsqrt NInf = NaN"
| "fsqrt NaN = NaN"

text \<open>
  The sample standard deviation (\<open>ddof = 1\<close>), NaN unless there are at least two cells.
\<close>

definition fstd :: "fl list \<Rightarrow> fl" where
  "fstd xs =
     (if length xs \<le> 1 then NaN
      else fsqrt (fdiv (fsum (map (\<lambda>x. fmul (fsub x (fmean xs)) (fsub x (fmean xs))) xs))
                       (Fin (real (length xs) - 1))))"

definition fminimum :: "fl \<Rightarrow> fl \<Rightarrow> fl" where
  "fminimum a b = (if a = NaN \<or> b = NaN then NaN else if flt b a then b else a)"

definition fmin_list :: "fl list \<Rightarrow> fl" where
  "fmin_list xs = (case xs of [] \<Rightarrow> NaN | x # ys \<Rightarrow> foldl fminimum x ys)"

definition fmax_list :: "fl list \<Rightarrow> fl" where
  "fmax_list xs = (case xs of [] \<Rightarrow> NaN | x # ys \<Rightarrow> foldl fmaximum x ys)"

text \<open>
  \<open>s.ewm(span=n, min_periods=m).mean()\<close> with pandas' defaults \<open>adjust=True\<close>,
  \<open>ignore_na=False\<close>: the loop of pandas' aggregation, carrying the weighted mean, the
  weight of the old mean and the number of observations seen. A cell is NaN until m
  cells that are not NaN have been seen. pandas raises ValueError for a span below 1.
\<close>

fun ewm_loop :: "real \<Rightarrow> nat \<Rightarrow> fl \<Rightarrow> real \<Rightarrow> nat \<Rightarrow> fl list \<Rightarrow> fl list" where
  "ewm_loop old_wt_factor minp weighted old_wt nobs [] = []"
| "ewm_loop old_wt_factor minp weighted old_wt nobs (cur # rest) =
     (let is_observation = \<not> isnan cur;
          nobs = nobs + (if is_observation then 1 else 0);
          old_wt1 = old_wt * old_wt_factor;
          weighted1 =
            (if \<not> isnan weighted then
               (if is_observation then
                  (if weighted \<noteq> cur
                   then fdiv (fadd (fmul (Fin old_wt1) weighted) (fmul (Fin 1) cur))
                             (Fin (old_wt1 + 1))
                   else weighted)
                else weighted)
             else if is_observation then cur else weighted);
          old_wt2 =
            (if \<not> isnan weighted then (if is_observation then old_wt1 + 1 else old_wt1)
             else old_wt)
      in (if nobs \<ge> minp then weighted1 else NaN)
           # ewm_loop old_wt_factor minp weighted1 old_wt2 nobs rest)"

definition ewm_values :: "nat \<Rightarrow> nat \<Rightarrow> fl list \<Rightarrow> fl list" where
  "ewm_values span_n min_periods s =
     (let minp = max min_periods 1;
          alpha = 2 / (real span_n + 1)
      in case prep_values s of
           [] \<Rightarrow> []
         | x # xs \<Rightarrow>
             (let nobs = (if isnan x then 0 else 1)
              in (if nobs \<ge> minp then x else NaN) # ewm_loop (1 - alpha) minp x 1 nobs xs))"

definition ewm_mean :: "nat \<Rightarrow> nat \<Rightarrow> fl list \<Rightarrow> error + fl list" where
  "ewm_mean span_n min_periods s =
     (if span_n < 1 then Inl ValueError else Inr (ewm_values span_n min_periods s))"



definition calculate_rsi_gain :: "fl list \<Rightarrow> nat \<Rightarrow> fl list" where
  "calculate_rsi_gain series period =
     rolling period fmean
       (map (\<lambda>d. if fgt d (Fin 0) then d else Fin 0) (series_diff series))"

definition calculate_rsi_loss :: "fl list \<Rightarrow> nat \<Rightarrow> fl list" where
  "calculate_rsi_loss series period =
     rolling period fmean
       (map fneg (map (\<lambda>d. if flt d (Fin 0) then d else Fin 0) (series_diff series)))"

definition calculate_rsi :: "fl list \<Rightarrow> nat \<Rightarrow> fl list" where
  "calculate_rsi series period =
     (let gain = calculate_rsi_gain series period;
          loss = calculate_rsi_loss series period;
          rs = map2 fdiv gain loss
      in map (\<lambda>r. fsub (Fin 100) (fdiv (Fin 100) (fadd (Fin 1) r))) rs)"

definition calculate_macd ::
  "fl list \<Rightarrow> nat \<Rightarrow> nat \<Rightarrow> nat \<Rightarrow> error + (fl list \<times> fl list \<times> fl list)" where
  "calculate_macd series fast_period slow_period signal_period =
     (case ewm_mean fast_period fast_period series of
        Inl e \<Rightarrow> Inl e
      | Inr fast_ema \<Rightarrow>
          (case ewm_mean slow_period slow_period series of
             Inl e \<Rightarrow> Inl e
           | Inr slow_ema \<Rightarrow>
               (let macd = map2 fsub fast_ema slow_ema
                in case ewm_mean signal_period signal_period macd of
                     Inl e \<Rightarrow> Inl e
                   | Inr sig \<Rightarrow> Inr (macd, sig, map2 fsub macd sig))))"

definition calculate_stochastic :: "fl list \<Rightarrow> fl list \<Rightarrow> fl list \<Rightarrow> nat \<Rightarrow> fl list \<times> fl list" where
  "calculate_stochastic high low close period =
     (let lowest_low = rolling period fmin_list low;
          highest_high = rolling period fmax_list high;
          k = map2 fdiv (map (fmul (Fin 100)) (map2 fsub close lowest_low))
                        (map2 fsub highest_high lowest_low);
          d = rolling 3 fmean k
      in (k, d))"


definition calculate_bollinger_bands :: "fl list \<Rightarrow> nat \<Rightarrow> fl list \<times> fl list \<times> fl list" where
  "calculate_bollinger_bands series period =
     (let sma = rolling period fmean series;
          std = rolling period fstd series;
          upper_band = map2 fadd sma (map (\<lambda>x. fmul x (Fin 2)) std);
          lower_band = map2 fsub sma (map (\<lambda>x. fmul x (Fin 2)) std)
      in (upper_band, sma, lower_band))"

definition calculate_atr :: "fl list \<Rightarrow> fl list \<Rightarrow> fl list \<Rightarrow> nat \<Rightarrow> fl list" where
  "calculate_atr high low close period =
     (let high_low = map2 fsub high low;
          high_close = map fabs (map2 fsub high (series_shift close));
          low_close = map fabs (map2 fsub low (series_shift close));
          tr = map2 fmaximum (map2 fmaximum high_low high_close) low_close
      in rolling period fmean tr)"

text \<open>\<open>calculate_adx\<close> up to its local \<open>dx\<close>, then the last smoothing.\<close>

definition calculate_dx :: "fl list \<Rightarrow> fl list \<Rightarrow> fl list \<Rightarrow> nat \<Rightarrow> error + fl list" where
  "calculate_dx high low close period =
     (let plus_dm = map (\<lambda>d. if flt d (Fin 0) then Fin 0 else d) (series_diff high);
          minus_dm = map (\<lambda>d. if flt d (Fin 0) then Fin 0 else d) (map fneg (series_diff low));
          tr = calculate_atr high low close period
      in case ewm_mean period period plus_dm of
           Inl e \<Rightarrow> Inl e
         | Inr plus_ema \<Rightarrow>
             (case ewm_mean period period minus_dm of
                Inl e \<Rightarrow> Inl e
              | Inr minus_ema \<Rightarrow>
                  (let plus_di = map (fmul (Fin 100)) (map2 fdiv plus_ema tr);
                       minus_di = map (fmul (Fin 100)) (map2 fdiv minus_ema tr)
                   in Inr (map (fmul (Fin 100))
                             (map fabs (map2 fdiv (map2 fsub plus_di minus_di)
                                                  (map2 fadd plus_di minus_di)))))))"

definition calculate_adx :: "fl list \<Rightarrow> fl list \<Rightarrow> fl list \<Rightarrow> nat \<Rightarrow> error + fl list" where
  "calculate_adx high low close period =
     (case calculate_dx high low close period of
        Inl e \<Rightarrow> Inl e
      | Inr dx \<Rightarrow> ewm_mean period period dx)"

section \<open>Example inputs\<close>

text \<open>A row whose Close is \<open>c\<close>, every other feature 0 and no other column.\<close>

definition flat_row :: "real \<Rightarrow> row" where
  "flat_row c = \<lparr>Close = Fin c, Volume = Fin 0, RSI = Fin 0, MACD = Fin 0, MACD_signal = Fin 0,
       Stoch_k = Fin 0, Stoch_d = Fin 0, OBV = Fin 0, Upper_BB = Fin 0, Lower_BB = Fin 0,
       ATR = Fin 0, ADX = Fin 0, other_na = []\<rparr>"

text \<open>The table of n rows whose Close column counts 0, 1, 2, ...\<close>

definition ramp :: "nat \<Rightarrow> row list" where
  "ramp n = map (\<lambda>k. flat_row (real k)) [0..<n]"

text \<open>
  A table of 63 rows for the three decisions: Close 110, 90 and 100.1 in rows 0, 1, 2 and
  Close 100 in every later row, so that rows 60, 61, 62 carry the realized Close 100.
\<close>

definition decision_table :: "row list" where
  "decision_table = [flat_row 110, flat_row 90, flat_row 100.1] @ replicate 60 (flat_row 100)"

text \<open>A forecaster that returns the Close of the last step of its window.\<close>

definition last_close :: "fl list list \<Rightarrow> fl" where
  "last_close w = (if w = [] then NaN else case last w of [] \<Rightarrow> NaN | c # _ \<Rightarrow> c)"

text \<open>
  A raw table whose first row is an indicator warm-up row (RSI missing) and holds the
  smallest Close; the table after the normalizing cell; the dataset built from that.
\<close>

definition warmup_table :: "row list" where
  "warmup_table = [(flat_row 0)\<lparr>RSI := NaN\<rparr>, flat_row 1, flat_row 3]"

definition once_scaled :: "row list" where
  "once_scaled =
     [(flat_row 0)\<lparr>RSI := NaN\<rparr>, flat_row (6004799503160661 / 18014398509481984), flat_row 1]"

definition twice_scaled :: TradeDataset where
  "twice_scaled = \<lparr>td_data = [flat_row 0, flat_row (9007199254740991 / 9007199254740992)],
     seq_len = 2,
     td_scaler = \<lparr>sc_scale = [Fin (6755399441055743 / 4503599627370496), Fin 1, Fin 1, Fin 1,
                               Fin 1, Fin 1, Fin 1, Fin 1, Fin 1, Fin 1, Fin 1, Fin 1],
                  sc_min = [Fin (- (4503599627370495 / 9007199254740992)), Fin 0, Fin 0, Fin 0,
                            Fin 0, Fin 0, Fin 0, Fin 0, Fin 0, Fin 0, Fin 0, Fin 0]\<rparr>\<rparr>"

text \<open>The dataset built from \<open>ramp 3\<close> with windows of two rows.\<close>

definition ramp_dataset :: TradeDataset where
  "ramp_dataset = \<lparr>td_data = [flat_row 0, flat_row (1 / 2), flat_row 1], seq_len = 2,
     td_scaler = \<lparr>sc_scale = [Fin (1 / 2), Fin 1, Fin 1, Fin 1, Fin 1, Fin 1, Fin 1, Fin 1, Fin 1, Fin 1, Fin 1, Fin 1],
                  sc_min = [Fin 0, Fin 0, Fin 0, Fin 0, Fin 0, Fin 0, Fin 0, Fin 0, Fin 0, Fin 0, Fin 0, Fin 0]\<rparr>\<rparr>"

text \<open>
  A raw table of five rows: row 0 lacks an indicator (RSI), row 2 has every feature and
  indicator but lacks a cell in another column; rows 1, 3, 4 are complete, with Close
  0, 1, 2.
\<close>

definition gap_table :: "row list" where
  "gap_table = [(flat_row 7)\<lparr>RSI := NaN\<rparr>, flat_row 0, (flat_row 5)\<lparr>other_na := [True]\<rparr>,
                flat_row 1, flat_row 2]"

text \<open>A strictly rising Close series of 14 entries.\<close>

definition rising14 :: "fl list" where
  "rising14 = [Fin 1, Fin 2, Fin 3, Fin 4, Fin 5, Fin 6, Fin 7, Fin 8, Fin 9, Fin 10,
               Fin 11, Fin 12, Fin 13, Fin 14]"





section \<open>Properties of binary64 rounding\<close>

text \<open>
  Rounding to binary64 is monotone, odd and idempotent, it fixes the powers of two and
  every multiple of the unit in the last place, and it moves a real by at most half a
  unit in the last place: \<open>\<bar>rd64 x - x\<bar> \<le> \<bar>x\<bar> / 2 ^ 53 + 2 powr (- 1075)\<close>.
\<close>

lemma exponent64_eq:
  assumes "2 powr of_int k \<le> \<bar>x\<bar>" "\<bar>x\<bar> < 2 powr of_int (k + 1)" "- 1022 \<le> k"
  shows "exponent64 x = k"
proof -
  have "0 < \<bar>x\<bar>" using assms(1) by (smt (verit) powr_gt_zero)
  then have "\<lfloor>log 2 \<bar>x\<bar>\<rfloor> = k"
    using assms(1,2) by (subst floor_log_eq_powr_iff) (simp_all add: add.commute)
  with assms(3) show ?thesis by (simp add: exponent64_def)
qed

lemma rd64_eval:
  assumes "2 powr of_int k \<le> \<bar>x\<bar>" "\<bar>x\<bar> < 2 powr of_int (k + 1)" "- 1022 \<le> k"
  shows "rd64 x = of_int (round_even (x / 2 powr of_int (k - 52))) * 2 powr of_int (k - 52)"
proof -
  have "x \<noteq> 0" using assms(1) by (smt (verit) powr_gt_zero)
  then show ?thesis
    by (simp add: rd64_def ulp64_def exponent64_eq[OF assms])
qed

lemma round_even_of_int [simp]: "round_even (of_int n) = n"
  by (simp add: round_even_def)

lemma round_even_bounds:
  "\<lfloor>x\<rfloor> \<le> round_even x" "round_even x \<le> \<lfloor>x\<rfloor> + 1"
  by (simp_all add: round_even_def Let_def)

lemma round_even_error: "\<bar>of_int (round_even x) - x\<bar> \<le> 1 / 2"
proof -
  have "of_int \<lfloor>x\<rfloor> \<le> x" "x < of_int \<lfloor>x\<rfloor> + 1" by linarith+
  then show ?thesis
    by (auto simp: round_even_def Let_def)
qed

lemma round_even_le_int: "x \<le> of_int n \<Longrightarrow> round_even x \<le> n"
proof -
  assume a: "x \<le> of_int n"
  show ?thesis
  proof (cases "x = of_int n")
    case True
    then show ?thesis by simp
  next
    case False
    with a have "x < of_int n" by simp
    then have "\<lfloor>x\<rfloor> < n" by (simp add: floor_less_iff)
    with round_even_bounds(2)[of x] show ?thesis by linarith
  qed
qed

lemma round_even_ge_int: "of_int n \<le> x \<Longrightarrow> n \<le> round_even x"
proof -
  assume "of_int n \<le> x"
  then have "n \<le> \<lfloor>x\<rfloor>" by (simp add: le_floor_iff)
  with round_even_bounds(1)[of x] show ?thesis by linarith
qed

lemma round_even_mono: "x \<le> y \<Longrightarrow> round_even x \<le> round_even y"
proof -
  assume xy: "x \<le> y"
  then have f: "\<lfloor>x\<rfloor> \<le> \<lfloor>y\<rfloor>" by (rule floor_mono)
  show ?thesis
  proof (cases "\<lfloor>x\<rfloor> = \<lfloor>y\<rfloor>")
    case True
    with xy show ?thesis
      by (auto simp: round_even_def Let_def)
  next
    case False
    with f have "\<lfloor>x\<rfloor> + 1 \<le> \<lfloor>y\<rfloor>" by simp
    with round_even_bounds(2)[of x] round_even_bounds(1)[of y] show ?thesis by linarith
  qed
qed

lemma round_even_minus: "round_even (- x) = - round_even x"
proof (cases "x = of_int \<lfloor>x\<rfloor>")
  case True
  then obtain n where "x = of_int n" ..
  then have "- x = of_int (- n)" by simp
  then show ?thesis
    unfolding \<open>x = of_int n\<close> by (metis round_even_of_int)
next
  case False
  then have lt: "of_int \<lfloor>x\<rfloor> < x" "x < of_int \<lfloor>x\<rfloor> + 1"
    by linarith+
  have fm: "\<lfloor>- x\<rfloor> = - \<lfloor>x\<rfloor> - 1"
  proof (rule floor_unique)
    show "of_int (- \<lfloor>x\<rfloor> - 1) \<le> - x"
      unfolding of_int_diff of_int_minus of_int_1 using lt(2) by linarith
    show "- x < of_int (- \<lfloor>x\<rfloor> - 1) + 1"
      unfolding of_int_diff of_int_minus of_int_1 using lt(1) by linarith
  qed
  show ?thesis
    unfolding round_even_def Let_def fm using lt
    by (auto simp: algebra_simps)
qed

lemma ulp64_pos: "0 < ulp64 x"
  by (simp add: ulp64_def)

lemma exponent64_minus [simp]: "exponent64 (- x) = exponent64 x"
  by (simp add: exponent64_def)

lemma ulp64_minus [simp]: "ulp64 (- x) = ulp64 x"
  by (simp add: ulp64_def)

lemma rd64_0 [simp]: "rd64 0 = 0"
  by (simp add: rd64_def)

lemma rd64_minus: "rd64 (- x) = - rd64 x"
  by (simp add: rd64_def round_even_minus)

lemma rd64_grid_le:
  assumes "x \<le> of_int n * ulp64 x"
  shows "rd64 x \<le> of_int n * ulp64 x"
proof (cases "x = 0")
  case True
  with assms show ?thesis by simp
next
  case False
  from assms ulp64_pos[of x] have "x / ulp64 x \<le> of_int n"
    by (simp add: field_simps)
  then have "round_even (x / ulp64 x) \<le> n" by (rule round_even_le_int)
  then have "of_int (round_even (x / ulp64 x)) * ulp64 x \<le> of_int n * ulp64 x"
    using ulp64_pos[of x] by (simp add: mult_right_mono)
  with False show ?thesis by (simp add: rd64_def)
qed

lemma rd64_grid_ge:
  assumes "of_int n * ulp64 x \<le> x"
  shows "of_int n * ulp64 x \<le> rd64 x"
proof (cases "x = 0")
  case True
  with assms show ?thesis by simp
next
  case False
  from assms ulp64_pos[of x] have "of_int n \<le> x / ulp64 x"
    by (simp add: field_simps)
  then have "n \<le> round_even (x / ulp64 x)" by (rule round_even_ge_int)
  then have "of_int n * ulp64 x \<le> of_int (round_even (x / ulp64 x)) * ulp64 x"
    using ulp64_pos[of x] by (simp add: mult_right_mono)
  with False show ?thesis by (simp add: rd64_def)
qed

lemma rd64_nonneg: "0 \<le> x \<Longrightarrow> 0 \<le> rd64 x"
  using rd64_grid_ge[of 0 x] by simp

lemma rd64_nonpos: "x \<le> 0 \<Longrightarrow> rd64 x \<le> 0"
  using rd64_grid_le[of x 0] by simp

lemma exponent64_ge: "- 1022 \<le> exponent64 x"
  by (simp add: exponent64_def)

lemma exponent64_upper:
  assumes "x \<noteq> 0"
  shows "\<bar>x\<bar> < 2 powr of_int (exponent64 x + 1)"
proof -
  have "0 < \<bar>x\<bar>" using assms by simp
  then have "\<bar>x\<bar> < 2 powr of_int (\<lfloor>log 2 \<bar>x\<bar>\<rfloor> + 1)"
    using floor_log_eq_powr_iff[of "\<bar>x\<bar>" 2 "\<lfloor>log 2 \<bar>x\<bar>\<rfloor>"] by (simp add: add.commute)
  also have "\<dots> \<le> 2 powr of_int (exponent64 x + 1)"
    by (simp add: exponent64_def)
  finally show ?thesis .
qed

lemma exponent64_lower:
  assumes "2 powr (- 1022) \<le> \<bar>x\<bar>"
  shows "2 powr of_int (exponent64 x) \<le> \<bar>x\<bar>"
proof -
  have pos: "0 < \<bar>x\<bar>" using assms by (smt (verit) powr_gt_zero)
  then have a: "2 powr of_int \<lfloor>log 2 \<bar>x\<bar>\<rfloor> \<le> \<bar>x\<bar>"
    using floor_log_eq_powr_iff[of "\<bar>x\<bar>" 2 "\<lfloor>log 2 \<bar>x\<bar>\<rfloor>"] by simp
  show ?thesis
  proof (cases "- 1022 \<le> \<lfloor>log 2 \<bar>x\<bar>\<rfloor>")
    case True
    then have "exponent64 x = \<lfloor>log 2 \<bar>x\<bar>\<rfloor>" by (simp add: exponent64_def)
    with a show ?thesis by simp
  next
    case False
    then have "exponent64 x = - 1022" by (simp add: exponent64_def)
    with assms show ?thesis by simp
  qed
qed

lemma exponent64_mono:
  assumes "x \<noteq> 0" "\<bar>x\<bar> \<le> \<bar>y\<bar>"
  shows "exponent64 x \<le> exponent64 y"
proof -
  have "0 < \<bar>x\<bar>" using assms by simp
  with assms(2) have "log 2 \<bar>x\<bar> \<le> log 2 \<bar>y\<bar>" by simp
  then have "\<lfloor>log 2 \<bar>x\<bar>\<rfloor> \<le> \<lfloor>log 2 \<bar>y\<bar>\<rfloor>" by (rule floor_mono)
  then show ?thesis by (simp add: exponent64_def)
qed

lemma exponent64_normal:
  assumes "- 1022 < exponent64 x" "x \<noteq> 0"
  shows "2 powr of_int (exponent64 x) \<le> \<bar>x\<bar>"
proof -
  from assms(1) have e: "exponent64 x = \<lfloor>log 2 \<bar>x\<bar>\<rfloor>"
    by (simp add: exponent64_def split: if_splits)
  have "0 < \<bar>x\<bar>" using assms(2) by simp
  then have "2 powr of_int \<lfloor>log 2 \<bar>x\<bar>\<rfloor> \<le> \<bar>x\<bar>"
    using floor_log_eq_powr_iff[of "\<bar>x\<bar>" 2 "\<lfloor>log 2 \<bar>x\<bar>\<rfloor>"] by simp
  with e show ?thesis by simp
qed

lemma pow2_grid:
  assumes "exponent64 x - 52 \<le> j"
  shows "\<exists>n. (2::real) powr of_int j = of_int n * ulp64 x"
proof -
  have "(2::real) powr of_int j = 2 powr (of_int (j - (exponent64 x - 52)) + of_int (exponent64 x - 52))"
    by simp
  also have "\<dots> = 2 powr of_int (j - (exponent64 x - 52)) * ulp64 x"
    unfolding ulp64_def by (rule powr_add)
  also have "(2::real) powr of_int (j - (exponent64 x - 52)) = 2 ^ nat (j - (exponent64 x - 52))"
    using assms by (subst powr_real_of_int) simp_all
  also have "\<dots> = of_int (2 ^ nat (j - (exponent64 x - 52)))"
    by simp
  finally show ?thesis by blast
qed

lemma rd64_pos_upper:
  assumes "0 < x"
  shows "rd64 x \<le> 2 powr of_int (exponent64 x + 1)"
proof -
  obtain n where n: "(2::real) powr of_int (exponent64 x + 1) = of_int n * ulp64 x"
    using pow2_grid[of x "exponent64 x + 1"] by auto
  have "x \<le> 2 powr of_int (exponent64 x + 1)"
    using exponent64_upper[of x] assms by simp
  then show ?thesis
    unfolding n by (rule rd64_grid_le)
qed

lemma rd64_pos_lower:
  assumes "0 < x" "- 1022 < exponent64 x"
  shows "2 powr of_int (exponent64 x) \<le> rd64 x"
proof -
  obtain n where n: "(2::real) powr of_int (exponent64 x) = of_int n * ulp64 x"
    using pow2_grid[of x "exponent64 x"] by auto
  have "2 powr of_int (exponent64 x) \<le> x"
    using exponent64_normal[OF assms(2)] assms(1) by simp
  then show ?thesis
    unfolding n by (rule rd64_grid_ge)
qed

lemma rd64_mono_pos:
  assumes "0 < x" "x \<le> y"
  shows "rd64 x \<le> rd64 y"
proof -
  have y: "0 < y" using assms by simp
  have e: "exponent64 x \<le> exponent64 y"
    using assms by (intro exponent64_mono) simp_all
  show ?thesis
  proof (cases "exponent64 x = exponent64 y")
    case True
    then have u: "ulp64 x = ulp64 y" by (simp add: ulp64_def)
    have "x / ulp64 y \<le> y / ulp64 y"
      using assms(2) ulp64_pos[of y] by (simp add: divide_right_mono)
    then have "round_even (x / ulp64 y) \<le> round_even (y / ulp64 y)"
      by (rule round_even_mono)
    then have "of_int (round_even (x / ulp64 y)) * ulp64 y \<le> of_int (round_even (y / ulp64 y)) * ulp64 y"
      using ulp64_pos[of y] by (simp add: mult_right_mono)
    with assms(1) y show ?thesis
      by (simp add: rd64_def u)
  next
    case False
    with e have lt: "exponent64 x + 1 \<le> exponent64 y" by simp
    then have n: "- 1022 < exponent64 y" using exponent64_ge[of x] by linarith
    have "rd64 x \<le> 2 powr of_int (exponent64 x + 1)"
      by (rule rd64_pos_upper[OF assms(1)])
    also have "\<dots> \<le> 2 powr of_int (exponent64 y)"
      using lt by simp
    also have "\<dots> \<le> rd64 y"
      by (rule rd64_pos_lower[OF y n])
    finally show ?thesis .
  qed
qed

lemma rd64_mono: "x \<le> y \<Longrightarrow> rd64 x \<le> rd64 y"
proof -
  assume xy: "x \<le> y"
  consider "0 < x" | "x \<le> 0" "0 \<le> y" | "y < 0" by linarith
  then show ?thesis
  proof cases
    case 1
    then show ?thesis using xy by (rule rd64_mono_pos)
  next
    case 2
    then show ?thesis using rd64_nonpos[of x] rd64_nonneg[of y] by linarith
  next
    case 3
    then have "0 < - y" "- y \<le> - x" using xy by simp_all
    from rd64_mono_pos[OF this] show ?thesis by (simp add: rd64_minus)
  qed
qed

lemma rd64_representable:
  assumes "r = of_int n * 2 powr of_int j" "exponent64 r - 52 \<le> j"
  shows "rd64 r = r"
proof (cases "r = 0")
  case True
  then show ?thesis by simp
next
  case False
  define u where "u = ulp64 r"
  have u: "0 < u" unfolding u_def by (rule ulp64_pos)
  obtain m where m: "(2::real) powr of_int j = of_int m * u"
    using pow2_grid[OF assms(2)] unfolding u_def by auto
  have r: "r = of_int (n * m) * u"
    using assms(1) unfolding m by simp
  then have "r / u = of_int (n * m)"
    using u by simp
  then have "round_even (r / u) = n * m"
    by (metis round_even_of_int)
  then have "rd64 r = of_int (n * m) * u"
    using False by (simp add: rd64_def u_def[symmetric])
  with r show ?thesis by simp
qed

lemma rd64_pow2:
  assumes "- 1074 \<le> k"
  shows "rd64 (2 powr of_int k) = 2 powr of_int k"
proof (rule rd64_representable[where n = 1 and j = k])
  show "2 powr of_int k = of_int 1 * 2 powr of_int k" by simp
  have "\<lfloor>log 2 \<bar>2 powr of_int k\<bar>\<rfloor> = k" by simp
  then show "exponent64 (2 powr of_int k) - 52 \<le> k"
    using assms by (simp add: exponent64_def)
qed

lemma rd64_idem_pos:
  assumes "0 < x"
  shows "rd64 (rd64 x) = rd64 x"
proof (cases "rd64 x = 2 powr of_int (exponent64 x + 1)")
  case True
  have "- 1074 \<le> exponent64 x + 1" using exponent64_ge[of x] by linarith
  from rd64_pow2[OF this] True show ?thesis by simp
next
  case False
  with rd64_pos_upper[OF assms] have lt: "rd64 x < 2 powr of_int (exponent64 x + 1)"
    by simp
  show ?thesis
  proof (cases "rd64 x = 0")
    case True
    then show ?thesis by simp
  next
    case nz: False
    with rd64_nonneg[of x] assms have pos: "0 < rd64 x" by simp
    have "\<lfloor>log 2 \<bar>rd64 x\<bar>\<rfloor> < exponent64 x + 1"
    proof -
      have "log 2 (rd64 x) < of_int (exponent64 x + 1)"
        using lt pos by (simp add: log_less_iff)
      moreover have "\<bar>rd64 x\<bar> = rd64 x" using pos by simp
      ultimately show ?thesis unfolding floor_less_iff by simp
    qed
    then have e: "exponent64 (rd64 x) \<le> exponent64 x"
      using exponent64_ge[of x] by (simp add: exponent64_def)
    show ?thesis
    proof (rule rd64_representable[where n = "round_even (x / ulp64 x)" and j = "exponent64 x - 52"])
      show "rd64 x = of_int (round_even (x / ulp64 x)) * 2 powr of_int (exponent64 x - 52)"
        using assms by (simp add: rd64_def ulp64_def)
      show "exponent64 (rd64 x) - 52 \<le> exponent64 x - 52"
        using e by simp
    qed
  qed
qed

lemma rd64_idem: "rd64 (rd64 x) = rd64 x"
proof -
  consider "0 < x" | "x = 0" | "x < 0" by linarith
  then show ?thesis
  proof cases
    case 1
    then show ?thesis by (rule rd64_idem_pos)
  next
    case 2
    then show ?thesis by simp
  next
    case 3
    then have "0 < - x" by simp
    from rd64_idem_pos[OF this] show ?thesis by (simp add: rd64_minus)
  qed
qed

lemma rd64_abs_le_pow2:
  assumes "\<bar>x\<bar> \<le> 2 powr of_int k" "- 1074 \<le> k"
  shows "\<bar>rd64 x\<bar> \<le> 2 powr of_int k"
proof -
  from assms(1) have "- (2 powr of_int k) \<le> x" "x \<le> 2 powr of_int k" by linarith+
  then have "rd64 (- (2 powr of_int k)) \<le> rd64 x" "rd64 x \<le> rd64 (2 powr of_int k)"
    by (simp_all add: rd64_mono)
  then show ?thesis
    by (simp add: rd64_minus rd64_pow2[OF assms(2)])
qed

lemma rd64_error_ulp: "\<bar>rd64 x - x\<bar> \<le> ulp64 x / 2"
proof (cases "x = 0")
  case True
  then show ?thesis using ulp64_pos[of 0] by simp
next
  case False
  have "rd64 x - x = (of_int (round_even (x / ulp64 x)) - x / ulp64 x) * ulp64 x"
    using False ulp64_pos[of x] by (simp add: rd64_def left_diff_distrib)
  then have "\<bar>rd64 x - x\<bar> = \<bar>of_int (round_even (x / ulp64 x)) - x / ulp64 x\<bar> * \<bar>ulp64 x\<bar>"
    by (simp only: abs_mult)
  also have "\<bar>ulp64 x\<bar> = ulp64 x"
    using ulp64_pos[of x] by simp
  finally have "\<bar>rd64 x - x\<bar> = \<bar>of_int (round_even (x / ulp64 x)) - x / ulp64 x\<bar> * ulp64 x" .
  also have "\<dots> \<le> 1 / 2 * ulp64 x"
    using round_even_error[of "x / ulp64 x"] ulp64_pos[of x] by (intro mult_right_mono) simp_all
  finally show ?thesis by simp
qed

lemma ulp64_le:
  assumes "x \<noteq> 0"
  shows "ulp64 x \<le> \<bar>x\<bar> / 2 ^ 52 + 2 powr (- 1074)"
proof (cases "2 powr (- 1022) \<le> \<bar>x\<bar>")
  case True
  have "ulp64 x = 2 powr of_int (exponent64 x) * 2 powr (- 52)"
    unfolding ulp64_def by (simp add: powr_add[symmetric])
  also have "\<dots> \<le> \<bar>x\<bar> * 2 powr (- 52)"
    using exponent64_lower[OF True] by (intro mult_right_mono) simp_all
  also have "\<dots> = \<bar>x\<bar> / 2 ^ 52"
    by (simp add: powr_minus_divide)
  finally have "ulp64 x \<le> \<bar>x\<bar> / 2 ^ 52" .
  moreover have "0 < (2::real) powr (- 1074)" by simp
  ultimately show ?thesis by linarith
next
  case False
  then have lt: "\<bar>x\<bar> < 2 powr (- 1022)" by simp
  have "log 2 \<bar>x\<bar> < - 1022"
    using lt assms by (simp add: log_less_iff)
  then have "\<lfloor>log 2 \<bar>x\<bar>\<rfloor> < - 1022" unfolding floor_less_iff by simp
  then have "exponent64 x = - 1022" by (simp add: exponent64_def)
  then have "ulp64 x = 2 powr (- 1074)" by (simp add: ulp64_def)
  moreover have "0 \<le> \<bar>x\<bar> / 2 ^ 52" by simp
  ultimately show ?thesis by linarith
qed

lemma rd64_error: "\<bar>rd64 x - x\<bar> \<le> \<bar>x\<bar> / 2 ^ 53 + 2 powr (- 1075)"
proof (cases "x = 0")
  case True
  then show ?thesis by simp
next
  case False
  have h: "(2::real) powr (- 1074) / 2 = 2 powr (- 1075)"
    by (simp add: powr_minus_divide)
  have "\<bar>rd64 x - x\<bar> \<le> ulp64 x / 2" by (rule rd64_error_ulp)
  also have "\<dots> \<le> (\<bar>x\<bar> / 2 ^ 52 + 2 powr (- 1074)) / 2"
    using ulp64_le[OF False] by simp
  also have "\<dots> = \<bar>x\<bar> / 2 ^ 53 + 2 powr (- 1075)"
    unfolding add_divide_distrib h by simp
  finally show ?thesis .
qed

lemma eta_small: "(2::real) powr (- 1075) \<le> 1 / 2 ^ 60"
proof -
  have "(2::real) powr (- 1075) \<le> 2 powr (- 60)" by (intro powr_mono) simp_all
  then show ?thesis by (simp add: powr_minus_divide)
qed

lemma rnd64_Fin: "\<bar>rd64 x\<bar> < 2 ^ 1024 \<Longrightarrow> rnd64 x = Fin (rd64 x)"
  by (simp add: rnd64_def)

lemma rnd64_small:
  assumes "\<bar>x\<bar> \<le> 2 powr of_int k" "- 1074 \<le> k" "k \<le> 1023"
  shows "rnd64 x = Fin (rd64 x)"
proof (rule rnd64_Fin)
  have "\<bar>rd64 x\<bar> \<le> 2 powr of_int k" by (rule rd64_abs_le_pow2[OF assms(1,2)])
  also have "\<dots> \<le> 2 powr of_int 1023" using assms(3) by (intro powr_mono) simp_all
  also have "\<dots> < 2 ^ 1024" by simp
  finally show "\<bar>rd64 x\<bar> < 2 ^ 1024" .
qed

lemma rnd64_eval:
  assumes "2 powr of_int k \<le> \<bar>x\<bar>" "\<bar>x\<bar> < 2 powr of_int (k + 1)" "- 1022 \<le> k" "k \<le> 1022"
  shows "rnd64 x = Fin (of_int (round_even (x / 2 powr of_int (k - 52))) * 2 powr of_int (k - 52))"
proof -
  have "rnd64 x = Fin (rd64 x)"
  proof (rule rnd64_small[where k = "k + 1"])
    show "\<bar>x\<bar> \<le> 2 powr of_int (k + 1)" using assms(2) by simp
    show "- 1074 \<le> k + 1" using assms(3) by simp
    show "k + 1 \<le> 1023" using assms(4) by simp
  qed
  then show ?thesis
    by (simp only: rd64_eval[OF assms(1,2,3)])
qed

lemma rnd64_0 [simp]: "rnd64 0 = Fin 0"
  by (simp add: rnd64_def)

lemma rnd64_1 [simp]: "rnd64 1 = Fin 1"
proof -
  have "rnd64 1 = Fin (of_int (round_even (1 / 2 powr of_int (0 - 52))) * 2 powr of_int (0 - 52))"
    by (rule rnd64_eval) simp_all
  then show ?thesis
    by (simp add: powr_minus_divide round_even_def Let_def)
qed

lemma rnd64_2 [simp]: "rnd64 2 = Fin 2"
proof -
  have "rnd64 2 = Fin (of_int (round_even (2 / 2 powr of_int (1 - 52))) * 2 powr of_int (1 - 52))"
    by (rule rnd64_eval) simp_all
  then show ?thesis
    by (simp add: powr_minus_divide round_even_def Let_def)
qed

lemma rnd64_half [simp]: "rnd64 (1 / 2) = Fin (1 / 2)"
proof -
  have "rnd64 (1 / 2) = Fin (of_int (round_even ((1 / 2) / 2 powr of_int (- 1 - 52))) * 2 powr of_int (- 1 - 52))"
    by (rule rnd64_eval) (simp_all add: powr_minus_divide)
  then show ?thesis
    by (simp add: powr_minus_divide round_even_def Let_def)
qed

lemma fdiv64_Fin:
  assumes "c \<noteq> 0" "\<bar>p / c\<bar> \<le> 2 powr of_int k" "- 1074 \<le> k" "k \<le> 1023"
  shows "fdiv64 (Fin p) (Fin c) = Fin (rd64 (p / c))"
  using assms(1) rnd64_small[OF assms(2,3,4)] by (simp add: fdiv64_def)

lemma fsub64_Fin:
  assumes "\<bar>x - y\<bar> \<le> 2 powr of_int k" "- 1074 \<le> k" "k \<le> 1023"
  shows "fsub64 (Fin x) (Fin y) = Fin (rd64 (x - y))"
  using rnd64_small[OF assms] by (simp add: fsub64_def fadd64_def)

lemma fadd64_Fin:
  assumes "\<bar>x + y\<bar> \<le> 2 powr of_int k" "- 1074 \<le> k" "k \<le> 1023"
  shows "fadd64 (Fin x) (Fin y) = Fin (rd64 (x + y))"
  using rnd64_small[OF assms] by (simp add: fadd64_def)

lemma fmul64_Fin:
  assumes "\<bar>x * y\<bar> \<le> 2 powr of_int k" "- 1074 \<le> k" "k \<le> 1023"
  shows "fmul64 (Fin x) (Fin y) = Fin (rd64 (x * y))"
  using rnd64_small[OF assms] by (simp add: fmul64_def)

lemma rd64_error_60: "\<bar>rd64 x - x\<bar> \<le> \<bar>x\<bar> / 2 ^ 53 + 1 / 2 ^ 60"
  using rd64_error[of x] eta_small by linarith

lemma rd64_error_bounded:
  assumes "\<bar>x\<bar> \<le> 1026"
  shows "\<bar>rd64 x - x\<bar> \<le> 1 / 5000000000000"
proof -
  have "\<bar>x\<bar> / 2 ^ 53 \<le> 1026 / 2 ^ 53"
    using assms by (simp add: divide_right_mono)
  moreover have "(1026::real) / 2 ^ 53 + 1 / 2 ^ 60 \<le> 1 / 5000000000000"
    by simp
  ultimately show ?thesis
    using rd64_error_60[of x] by linarith
qed

text \<open>
  The float64 ratio \<open>pred / close - 1\<close> lies within \<open>10^-12 / 2\<close> of the real one when
  the quotient is at most 1024 in magnitude.
\<close>

lemma ratio64:
  assumes "c \<noteq> 0" "\<bar>p / c\<bar> \<le> 1024"
  shows "\<exists>r. fsub64 (fdiv64 (Fin p) (Fin c)) (Fin 1) = Fin r \<and>
             \<bar>r - (p / c - 1)\<bar> \<le> 1 / 2000000000000"
proof -
  define q where "q = p / c"
  have q: "\<bar>q\<bar> \<le> 1024" using assms(2) by (simp add: q_def)
  have d: "fdiv64 (Fin p) (Fin c) = Fin (rd64 q)"
    unfolding q_def
    by (rule fdiv64_Fin[where k = 10, OF assms(1)]) (use assms(2) in simp_all)
  have e1: "\<bar>rd64 q - q\<bar> \<le> 1 / 5000000000000"
    by (rule rd64_error_bounded) (use q in linarith)
  have b1: "\<bar>rd64 q - 1\<bar> \<le> 1026" using q e1 by linarith
  have s: "fsub64 (Fin (rd64 q)) (Fin 1) = Fin (rd64 (rd64 q - 1))"
    by (rule fsub64_Fin[where k = 11]) (use b1 in simp_all)
  have e2: "\<bar>rd64 (rd64 q - 1) - (rd64 q - 1)\<bar> \<le> 1 / 5000000000000"
    by (rule rd64_error_bounded[OF b1])
  have "\<bar>rd64 (rd64 q - 1) - (q - 1)\<bar> \<le> 1 / 2000000000000"
    using e1 e2 by linarith
  moreover have "fsub64 (fdiv64 (Fin p) (Fin c)) (Fin 1) = Fin (rd64 (rd64 q - 1))"
    by (simp only: d s)
  ultimately show ?thesis
    unfolding q_def by blast
qed

lemma threshold64:
  assumes "\<bar>t\<bar> \<le> 1"
  shows "\<exists>r. rnd64 t = Fin r \<and> \<bar>r - t\<bar> \<le> 1 / 2000000000000"
proof -
  have "rnd64 t = Fin (rd64 t)"
    by (rule rnd64_small[where k = 0]) (use assms in simp_all)
  moreover have "\<bar>rd64 t - t\<bar> \<le> 1 / 5000000000000"
    by (rule rd64_error_bounded) (use assms in linarith)
  ultimately show ?thesis by force
qed

lemma decide_margin:
  assumes "c \<noteq> 0" "\<bar>p / c\<bar> \<le> 1024" "\<bar>tb\<bar> \<le> 1" "\<bar>ts\<bar> \<le> 1"
  shows "(tb + 1 / 10 ^ 12 < p / c - 1 \<longrightarrow> decide tb ts (Fin p) (Fin c) = BUY) \<and>
         (p / c - 1 < tb - 1 / 10 ^ 12 \<and> p / c - 1 < ts - 1 / 10 ^ 12
            \<longrightarrow> decide tb ts (Fin p) (Fin c) = SELL) \<and>
         (p / c - 1 < tb - 1 / 10 ^ 12 \<and> ts + 1 / 10 ^ 12 < p / c - 1
            \<longrightarrow> decide tb ts (Fin p) (Fin c) = HOLD)"
proof -
  define q where "q = p / c - 1"
  have h: "(1::real) / 10 ^ 12 = 1 / 1000000000000" by simp
  from ratio64[OF assms(1,2)] obtain r
    where r: "fsub64 (fdiv64 (Fin p) (Fin c)) (Fin 1) = Fin r" "\<bar>r - q\<bar> \<le> 1 / 2000000000000"
    unfolding q_def by blast
  from threshold64[OF assms(3)] obtain b where b: "rnd64 tb = Fin b" "\<bar>b - tb\<bar> \<le> 1 / 2000000000000"
    by blast
  from threshold64[OF assms(4)] obtain s where s: "rnd64 ts = Fin s" "\<bar>s - ts\<bar> \<le> 1 / 2000000000000"
    by blast
  have d: "decide tb ts (Fin p) (Fin c) = (if b < r then BUY else if r < s then SELL else HOLD)"
    unfolding decide_def r(1) b(1) s(1) fgt_def by simp
  have buy: "decide tb ts (Fin p) (Fin c) = BUY" if "tb + 1 / 1000000000000 < q"
  proof -
    have "b < r" using that r(2) b(2) by linarith
    then show ?thesis by (simp add: d)
  qed
  have sell: "decide tb ts (Fin p) (Fin c) = SELL"
    if "q < tb - 1 / 1000000000000" "q < ts - 1 / 1000000000000"
  proof -
    have "\<not> b < r" "r < s" using that r(2) b(2) s(2) by linarith+
    then show ?thesis by (simp add: d)
  qed
  have hold: "decide tb ts (Fin p) (Fin c) = HOLD"
    if "q < tb - 1 / 1000000000000" "ts + 1 / 1000000000000 < q"
  proof -
    have "\<not> b < r" "\<not> r < s" using that r(2) b(2) s(2) by linarith+
    then show ?thesis by (simp add: d)
  qed
  show ?thesis
    unfolding h q_def[symmetric] using buy sell hold by blast
qed

lemma decide_examples:
  "decide 0.005 (- 0.005) (Fin 110) (Fin 100) = BUY"
  "decide 0.005 (- 0.005) (Fin 90) (Fin 100) = SELL"
  "decide 0.005 (- 0.005) (Fin 100.1) (Fin 100) = HOLD"
  using decide_margin[of 100 110 "5 / 1000" "- (5 / 1000)"]
    decide_margin[of 100 90 "5 / 1000" "- (5 / 1000)"]
    decide_margin[of 100 "1001 / 10" "5 / 1000" "- (5 / 1000)"]
  by simp_all

lemma rnd64_995: "rnd64 (199 / 200) = Fin (8962163258467287 / 2 ^ 53)"
proof -
  have "rnd64 (199 / 200) = Fin (of_int (round_even ((199 / 200) / 2 powr of_int (- 1 - 52))) * 2 powr of_int (- 1 - 52))"
    by (rule rnd64_eval) (simp_all add: powr_minus_divide)
  then show ?thesis
    by (simp add: powr_minus_divide round_even_def Let_def)
qed

lemma rnd64_ratio_995: "rnd64 (8962163258467287 / 2 ^ 53 - 1) = Fin (- (5764607523034240 / 2 ^ 60))"
proof -
  have "rnd64 (8962163258467287 / 2 ^ 53 - 1) =
          Fin (of_int (round_even ((8962163258467287 / 2 ^ 53 - 1) / 2 powr of_int (- 8 - 52))) * 2 powr of_int (- 8 - 52))"
    by (rule rnd64_eval) (simp_all add: powr_minus_divide)
  then show ?thesis
    by (simp add: powr_minus_divide round_even_def Let_def)
qed

lemma rnd64_threshold_sell: "rnd64 (- (1 / 200)) = Fin (- (5764607523034235 / 2 ^ 60))"
proof -
  have "rnd64 (- (1 / 200)) =
          Fin (of_int (round_even ((- (1 / 200)) / 2 powr of_int (- 8 - 52))) * 2 powr of_int (- 8 - 52))"
    by (rule rnd64_eval) (simp_all add: powr_minus_divide)
  then show ?thesis
    by (simp add: powr_minus_divide round_even_def Let_def)
qed

lemma rnd64_threshold_buy: "rnd64 (1 / 200) = Fin (5764607523034235 / 2 ^ 60)"
proof -
  have "rnd64 (1 / 200) =
          Fin (of_int (round_even ((1 / 200) / 2 powr of_int (- 8 - 52))) * 2 powr of_int (- 8 - 52))"
    by (rule rnd64_eval) (simp_all add: powr_minus_divide)
  then show ?thesis
    by (simp add: powr_minus_divide round_even_def Let_def)
qed

lemma decide_boundary: "decide 0.005 (- 0.005) (Fin 99.5) (Fin 100) = SELL"
proof -
  have d: "fdiv64 (Fin 99.5) (Fin 100) = Fin (8962163258467287 / 2 ^ 53)"
    using rnd64_995 by (simp add: fdiv64_def)
  have s: "fsub64 (Fin (8962163258467287 / 2 ^ 53)) (Fin 1) = Fin (- (5764607523034240 / 2 ^ 60))"
    using rnd64_ratio_995 by (simp add: fsub64_def fadd64_def)
  have b: "rnd64 0.005 = Fin (5764607523034235 / 2 ^ 60)"
    using rnd64_threshold_buy by simp
  have t: "rnd64 (- 0.005) = Fin (- (5764607523034235 / 2 ^ 60))"
    using rnd64_threshold_sell by simp
  show ?thesis
    unfolding decide_def d s b t by (simp add: fgt_def)
qed

section \<open>Properties of the signal generator\<close>

text \<open>
  A batch is a block of table rows, and \<open>process_batch\<close> turns every row into a window
  of one step before it calls the model.
\<close>

lemma process_batch_eq: "process_batch net batch s = (map (\<lambda>r. net [r]) batch, s)"
  by (simp add: process_batch_def forward_def Let_def comp_def)

lemma inner_loop_eq:
  "inner_loop data tb ts s j preds (S, P) =
     (S @ map (\<lambda>m. decide tb ts (preds ! m) (Close (data ! (s + j + m + 60))))
            [0..<min (length preds) (length data - 60 - (s + j))],
      P @ take (min (length preds) (length data - 60 - (s + j))) preds)"
proof (induction preds arbitrary: j S P)
  case Nil
  then show ?case by simp
next
  case (Cons p ps)
  show ?case
  proof (cases "s + j + 60 \<ge> length data")
    case True
    then show ?thesis by simp
  next
    case False
    then obtain d where d: "length data - 60 - (s + j) = Suc d" "length data - 60 - (s + (j + 1)) = d"
      by (metis Suc_diff_Suc add_Suc_right diff_diff_left not_le_imp_less zero_less_diff add.commute Suc_eq_plus1 less_diff_conv)
    have "map (\<lambda>m. decide tb ts ((p # ps) ! m) (Close (data ! (s + j + m + 60)))) [0..<Suc (min (length ps) d)]
        = decide tb ts p (Close (data ! (s + j + 60))) #
          map (\<lambda>m. decide tb ts (ps ! m) (Close (data ! (s + (j + 1) + m + 60)))) [0..<min (length ps) d]"
      by (simp add: upt_rec[of 0] map_Suc_upt[symmetric] del: upt_Suc)
    with False d show ?thesis
      by (simp add: Cons.IH Let_def)
  qed
qed

lemma map_upt_shift: "map (\<lambda>m. f (i + m)) [0..<k] = map f [i..<i + k]"
  by (induction k) simp_all

lemma batch_preds_take:
  assumes "k \<le> length data - i" "k \<le> bs"
  shows "take k (map (\<lambda>r. net [r]) (map features (iloc_slice data i (i + bs))))
         = map (\<lambda>m. net [features (data ! m)]) [i..<i + k]"
proof (rule nth_equalityI)
  show "length (take k (map (\<lambda>r. net [r]) (map features (iloc_slice data i (i + bs)))))
        = length (map (\<lambda>m. net [features (data ! m)]) [i..<i + k])"
    using assms by (simp add: iloc_slice_def)
next
  fix m assume "m < length (take k (map (\<lambda>r. net [r]) (map features (iloc_slice data i (i + bs)))))"
  then have m: "m < k" by simp
  with assms show "take k (map (\<lambda>r. net [r]) (map features (iloc_slice data i (i + bs)))) ! m
        = map (\<lambda>m. net [features (data ! m)]) [i..<i + k] ! m"
    by (simp add: iloc_slice_def)
qed

lemma batch_step:
  assumes "0 < bs" "i < length data - 60"
  shows "inner_loop data tb ts i 0 (map (\<lambda>r. net [r]) (map features (iloc_slice data i (i + bs))))
           (map (\<lambda>m. decide tb ts (net [features (data ! m)]) (Close (data ! (m + 60)))) [0..<i],
            map (\<lambda>m. net [features (data ! m)]) [0..<i])
         = (map (\<lambda>m. decide tb ts (net [features (data ! m)]) (Close (data ! (m + 60))))
              [0..<min (i + bs) (length data - 60)],
            map (\<lambda>m. net [features (data ! m)]) [0..<min (i + bs) (length data - 60)])"
proof -
  define preds where "preds = map (\<lambda>r. net [r]) (map features (iloc_slice data i (i + bs)))"
  define k where "k = min (length preds) (length data - 60 - (i + 0))"
  have len: "length preds = min bs (length data - i)"
    by (simp add: preds_def iloc_slice_def min.commute)
  have k: "k = min bs (length data - 60 - i)"
    using assms unfolding k_def len by auto
  have ik: "i + k = min (i + bs) (length data - 60)"
    using assms unfolding k by auto
  have kle: "k \<le> length data - i" "k \<le> bs"
    unfolding k by auto
  have nth: "preds ! m = net [features (data ! (i + m))]" if "m < k" for m
  proof -
    from that have "m < bs" "i + m < length data" using k by auto
    then show ?thesis
      by (simp add: preds_def iloc_slice_def)
  qed
  have sigs: "map (\<lambda>m. decide tb ts (preds ! m) (Close (data ! (i + 0 + m + 60)))) [0..<k]
            = map (\<lambda>m. decide tb ts (net [features (data ! m)]) (Close (data ! (m + 60)))) [i..<i + k]"
  proof -
    have "map (\<lambda>m. decide tb ts (preds ! m) (Close (data ! (i + 0 + m + 60)))) [0..<k]
        = map (\<lambda>m. decide tb ts (net [features (data ! (i + m))]) (Close (data ! (i + m + 60)))) [0..<k]"
      using nth by (intro map_cong) auto
    also have "\<dots> = map (\<lambda>m. decide tb ts (net [features (data ! m)]) (Close (data ! (m + 60)))) [i..<i + k]"
      by (rule map_upt_shift[where f = "\<lambda>m. decide tb ts (net [features (data ! m)]) (Close (data ! (m + 60)))"])
    finally show ?thesis .
  qed
  have tk: "take k preds = map (\<lambda>m. net [features (data ! m)]) [i..<i + k]"
    unfolding preds_def by (rule batch_preds_take[OF kle])
  have split: "map f [0..<i] @ map f [i..<i + k] = map f [0..<i + k]" for f :: "nat \<Rightarrow> 'b"
    by (metis le_add1 map_append upt_add_eq_append zero_le)
  have "inner_loop data tb ts i 0 preds
           (map (\<lambda>m. decide tb ts (net [features (data ! m)]) (Close (data ! (m + 60)))) [0..<i],
            map (\<lambda>m. net [features (data ! m)]) [0..<i])
         = (map (\<lambda>m. decide tb ts (net [features (data ! m)]) (Close (data ! (m + 60))))
              [0..<i + k],
            map (\<lambda>m. net [features (data ! m)]) [0..<i + k])"
    unfolding inner_loop_eq k_def[symmetric] sigs tk split ..
  then show ?thesis
    unfolding ik preds_def .
qed

lemma outer_loop_eq:
  assumes "0 < bs"
  shows "outer_loop net data tb ts
           (map (\<lambda>i. (map features (iloc_slice data i (i + bs)), i)) (py_range i (length data - 60) bs))
           (map (\<lambda>m. decide tb ts (net [features (data ! m)]) (Close (data ! (m + 60))))
              [0..<min i (length data - 60)],
            map (\<lambda>m. net [features (data ! m)]) [0..<min i (length data - 60)])
         = (map (\<lambda>m. decide tb ts (net [features (data ! m)]) (Close (data ! (m + 60))))
              [0..<length data - 60],
            map (\<lambda>m. net [features (data ! m)]) [0..<length data - 60])"
  using assms
proof (induction i "length data - 60" bs rule: py_range.induct)
  case (1 i step)
  show ?case
  proof (cases "i < length data - 60")
    case True
    then have r: "py_range i (length data - 60) step = i # py_range (i + step) (length data - 60) step"
      using 1(2) by (subst py_range.simps) simp
    have mi: "min i (length data - 60) = i" using True by simp
    show ?thesis
      unfolding r mi
      using 1(1)[OF _ True 1(2)] 1(2) batch_step[OF 1(2) True]
      by (simp add: process_batch_eq)
  next
    case False
    then have "py_range i (length data - 60) step = []"
      by (subst py_range.simps) simp
    moreover have "min i (length data - 60) = length data - 60" using False by simp
    ultimately show ?thesis by simp
  qed
qed

text \<open>
  The two loops in closed form: one signal and one prediction for each window start
  below \<open>len(data) - 60\<close>, in order.
\<close>

lemma generate_signals_batch_eq:
  assumes "0 < bs"
  shows "generate_signals_batch net data bs tb ts =
     Inr (map (\<lambda>m. decide tb ts (net [features (data ! m)]) (Close (data ! (m + 60))))
              [0..<length data - 60],
          map (\<lambda>m. net [features (data ! m)]) [0..<length data - 60])"
  using outer_loop_eq[OF assms, of net data tb ts 0] assms
  by (simp add: generate_signals_batch_def)

lemma length_ramp: "length (ramp n) = n"
  by (simp add: ramp_def)

lemma nth_ramp: "k < n \<Longrightarrow> ramp n ! k = flat_row (real k)"
  by (simp add: ramp_def)

lemma features_flat_row: "features (flat_row c) = Fin c # replicate 11 (Fin 0)"
  by (simp add: features_def flat_row_def numeral_eq_Suc)

lemma decide_buy:
  assumes "c \<noteq> 0" "\<bar>p / c\<bar> \<le> 1024" "\<bar>tb\<bar> \<le> 1" "\<bar>ts\<bar> \<le> 1" "tb + 1 / 10 ^ 12 < p / c - 1"
  shows "decide tb ts (Fin p) (Fin c) = BUY"
  using decide_margin[OF assms(1-4)] assms(5) by blast

lemma decide_sell:
  assumes "c \<noteq> 0" "\<bar>p / c\<bar> \<le> 1024" "\<bar>tb\<bar> \<le> 1" "\<bar>ts\<bar> \<le> 1"
    "p / c - 1 < tb - 1 / 10 ^ 12" "p / c - 1 < ts - 1 / 10 ^ 12"
  shows "decide tb ts (Fin p) (Fin c) = SELL"
  using decide_margin[OF assms(1-4)] assms(5,6) by blast

lemma decide_hold:
  assumes "c \<noteq> 0" "\<bar>p / c\<bar> \<le> 1024" "\<bar>tb\<bar> \<le> 1" "\<bar>ts\<bar> \<le> 1"
    "p / c - 1 < tb - 1 / 10 ^ 12" "ts + 1 / 10 ^ 12 < p / c - 1"
  shows "decide tb ts (Fin p) (Fin c) = HOLD"
  using decide_margin[OF assms(1-4)] assms(5,6) by blast

lemma generate_signals_batch_nth:
  assumes "generate_signals_batch net data bs tb ts = Inr (signals, predictions)"
    and "i + 60 < length data"
  shows "length signals = length data - 60" "length predictions = length data - 60"
    "predictions ! i = net [features (data ! i)]"
    "signals ! i = decide tb ts (predictions ! i) (Close (data ! (i + 60)))"
proof -
  from assms(1) have bs: "0 < bs"
    by (cases "bs = 0") (simp_all add: generate_signals_batch_def)
  from assms(2) have i: "i < length data - 60" by simp
  from assms(1) have S: "signals = map (\<lambda>m. decide tb ts (net [features (data ! m)]) (Close (data ! (m + 60)))) [0..<length data - 60]"
    and P: "predictions = map (\<lambda>m. net [features (data ! m)]) [0..<length data - 60]"
    by (simp_all add: generate_signals_batch_eq[OF bs])
  show "length signals = length data - 60" "length predictions = length data - 60"
    by (simp_all add: S P)
  show "predictions ! i = net [features (data ! i)]"
    using i by (simp add: P)
  show "signals ! i = decide tb ts (predictions ! i) (Close (data ! (i + 60)))"
    using i by (simp add: S P)
qed

lemma nth_decision_table:
  "decision_table ! 0 = flat_row 110" "decision_table ! 1 = flat_row 90"
  "decision_table ! Suc 0 = flat_row 90"
  "decision_table ! 2 = flat_row 100.1"
  "decision_table ! 60 = flat_row 100" "decision_table ! 61 = flat_row 100"
  "decision_table ! 62 = flat_row 100" "length decision_table = 63"
  by (simp_all add: decision_table_def nth_append)

lemma last_close_row: "last_close [features (flat_row c)] = Fin c"
  by (simp add: last_close_def features_flat_row)

lemma generate_signals_batch_decision_table:
  "generate_signals_batch last_close decision_table 512 0.005 (- 0.005)
     = Inr ([BUY, SELL, HOLD], [Fin 110, Fin 90, Fin 100.1])"
proof -
  have u: "[0..<3] = [0, 1, 2]"
    by (simp add: upt_rec)
  have c: "Close (flat_row x) = Fin x" for x
    by (simp add: flat_row_def)
  show ?thesis
    by (simp add: generate_signals_batch_eq nth_decision_table u last_close_row c
        decide_buy decide_sell decide_hold)
qed

text \<open>
  Claim C2 as stated fails on the code. On a table of 61 rows with Close 100 and a
  forecaster that always answers 99.5, the real ratio 99.5 / 100 - 1 is exactly -0.005,
  which is not below -0.005, so the claim gives HOLD. The code computes in float64: the
  quotient rounds to 8962163258467287 / 2^53, the difference to -5764607523034240 / 2^60,
  and the threshold -0.005 is held as -5764607523034235 / 2^60, so the code emits SELL.
\<close>

theorem signal_boundary_counterexample:
  "generate_signals_batch (\<lambda>w. Fin 99.5) (replicate 61 (flat_row 100)) 512 0.005 (- 0.005)
     = Inr ([SELL], [Fin 99.5]) \<and>
   \<not> ((99.5::real) / 100 - 1 < - 0.005)"
proof -
  have c: "Close (flat_row x) = Fin x" for x
    by (simp add: flat_row_def)
  have "generate_signals_batch (\<lambda>w. Fin 99.5) (replicate 61 (flat_row 100)) 512 0.005 (- 0.005)
     = Inr ([decide 0.005 (- 0.005) (Fin 99.5) (Fin 100)], [Fin 99.5])"
    by (simp add: generate_signals_batch_eq c)
  then show ?thesis
    by (simp only: decide_boundary) simp
qed

text \<open>
  Claim C2, amended. For every emitted signal at window start i, with prediction p and
  realized Close c at row i + 60, the signal is BUY when the float64 value of p / c - 1
  (the quotient rounded, then the difference rounded) is above the double nearest to
  0.005, SELL when it is below the double nearest to -0.005, and HOLD otherwise. For a
  finite prediction and a finite non-zero Close with \<bar>p / c\<bar> \<le> 1024 this agrees with
  the comparison of the real ratio whenever the real ratio is further than 10^-12 from
  both thresholds: BUY above 0.005 + 10^-12, SELL below -0.005 - 10^-12, HOLD strictly
  between -0.005 + 10^-12 and 0.005 - 10^-12. So p = 110, c = 100 gives BUY; p = 90,
  c = 100 gives SELL; p = 100.1, c = 100 gives HOLD. Within 10^-12 of a threshold the
  rounding decides, as for p = 99.5, c = 100.
\<close>

theorem signal_thresholds:
  assumes "generate_signals_batch net data 512 0.005 (- 0.005) = Inr (signals, predictions)"
    and "i + 60 < length data"
  shows "length signals = length data - 60 \<and> length predictions = length data - 60 \<and>
         signals ! i =
           (if fgt (fsub64 (fdiv64 (predictions ! i) (Close (data ! (i + 60)))) (Fin 1)) (rnd64 0.005)
            then BUY
            else if flt (fsub64 (fdiv64 (predictions ! i) (Close (data ! (i + 60)))) (Fin 1)) (rnd64 (- 0.005))
            then SELL
            else HOLD) \<and>
         (\<forall>p c. predictions ! i = Fin p \<and> Close (data ! (i + 60)) = Fin c \<and> c \<noteq> 0 \<and>
                \<bar>p / c\<bar> \<le> 1024 \<longrightarrow>
            (0.005 + 1 / 10 ^ 12 < p / c - 1 \<longrightarrow> signals ! i = BUY) \<and>
            (p / c - 1 < - 0.005 - 1 / 10 ^ 12 \<longrightarrow> signals ! i = SELL) \<and>
            (- 0.005 + 1 / 10 ^ 12 < p / c - 1 \<and> p / c - 1 < 0.005 - 1 / 10 ^ 12 \<longrightarrow>
               signals ! i = HOLD))"
proof -
  note g = generate_signals_batch_nth[OF assms]
  have gen: "signals ! i =
           (if fgt (fsub64 (fdiv64 (predictions ! i) (Close (data ! (i + 60)))) (Fin 1)) (rnd64 0.005)
            then BUY
            else if flt (fsub64 (fdiv64 (predictions ! i) (Close (data ! (i + 60)))) (Fin 1)) (rnd64 (- 0.005))
            then SELL
            else HOLD)"
    unfolding g(4) decide_def ..
  have fin: "(0.005 + 1 / 10 ^ 12 < p / c - 1 \<longrightarrow> signals ! i = BUY) \<and>
            (p / c - 1 < - 0.005 - 1 / 10 ^ 12 \<longrightarrow> signals ! i = SELL) \<and>
            (- 0.005 + 1 / 10 ^ 12 < p / c - 1 \<and> p / c - 1 < 0.005 - 1 / 10 ^ 12 \<longrightarrow>
               signals ! i = HOLD)"
    if "predictions ! i = Fin p" "Close (data ! (i + 60)) = Fin c" "c \<noteq> 0" "\<bar>p / c\<bar> \<le> 1024" for p c
  proof -
    have t: "\<bar>0.005::real\<bar> \<le> 1" "\<bar>- 0.005::real\<bar> \<le> 1" by simp_all
    note m = decide_margin[OF that(3,4) t]
    have n: "- 0.005 - 1 / 10 ^ 12 < (0.005::real) - 1 / 10 ^ 12" by simp
    show ?thesis
      unfolding g(4) that(1,2)
    proof (intro conjI impI)
      assume "0.005 + 1 / 10 ^ 12 < p / c - 1"
      then show "decide 0.005 (- 0.005) (Fin p) (Fin c) = BUY"
        using m by blast
    next
      assume a: "p / c - 1 < - 0.005 - 1 / 10 ^ 12"
      then have "p / c - 1 < 0.005 - 1 / 10 ^ 12"
        using n by (rule order.strict_trans)
      with a show "decide 0.005 (- 0.005) (Fin p) (Fin c) = SELL"
        using m by blast
    next
      assume "- 0.005 + 1 / 10 ^ 12 < p / c - 1 \<and> p / c - 1 < 0.005 - 1 / 10 ^ 12"
      then show "decide 0.005 (- 0.005) (Fin p) (Fin c) = HOLD"
        using m by blast
    qed
  qed
  from g(1,2) gen fin show ?thesis by blast
qed

theorem signal_thresholds_witness:
  "generate_signals_batch last_close decision_table 512 0.005 (- 0.005)
     = Inr ([BUY, SELL, HOLD], [Fin 110, Fin 90, Fin 100.1]) \<and>
   (2::nat) + 60 < length decision_table \<and>
   Close (decision_table ! (0 + 60)) = Fin 100 \<and> Close (decision_table ! (1 + 60)) = Fin 100 \<and>
   Close (decision_table ! (2 + 60)) = Fin 100 \<and>
   0.005 + 1 / 10 ^ 12 < (110::real) / 100 - 1 \<and> [BUY, SELL, HOLD] ! 0 = BUY \<and>
   (90::real) / 100 - 1 < - 0.005 - 1 / 10 ^ 12 \<and> [BUY, SELL, HOLD] ! 1 = SELL \<and>
   - 0.005 + 1 / 10 ^ 12 < (100.1::real) / 100 - 1 \<and>
   (100.1::real) / 100 - 1 < 0.005 - 1 / 10 ^ 12 \<and> [BUY, SELL, HOLD] ! 2 = HOLD"
proof -
  have g: "generate_signals_batch last_close decision_table 512 0.005 (- 0.005)
     = Inr ([BUY, SELL, HOLD], [Fin 110, Fin 90, Fin 100.1])"
    by (rule generate_signals_batch_decision_table)
  have h: "(0::nat) + 60 < length decision_table" "(1::nat) + 60 < length decision_table"
    "(2::nat) + 60 < length decision_table"
    by (simp_all add: nth_decision_table)
  have c: "Close (decision_table ! (0 + 60)) = Fin 100" "Close (decision_table ! (1 + 60)) = Fin 100"
    "Close (decision_table ! (2 + 60)) = Fin 100"
    by (simp_all add: nth_decision_table flat_row_def)
  from signal_thresholds[OF g h(1)] c(1) have b: "[BUY, SELL, HOLD] ! 0 = BUY"
    by simp
  from signal_thresholds[OF g h(2)] c(2) have s: "[BUY, SELL, HOLD] ! 1 = SELL"
    by simp
  from signal_thresholds[OF g h(3)] c(3) have o: "[BUY, SELL, HOLD] ! 2 = HOLD"
    by simp
  from g h c b s o show ?thesis by simp
qed

text \<open>
  The last cell in closed form. On a table of fewer than 60 rows the column assignment
  raises, since the 60 leading entries alone are longer than the table.
\<close>

lemma label_table_eq:
  "label_table net data =
     (if length data < 60 then Inl ValueError
      else Inr \<lparr>rows = data,
            Signal = replicate 60 HOLD @
              map (\<lambda>m. decide 0.005 (- 0.005) (net [features (data ! m)]) (Close (data ! (m + 60))))
                [0..<length data - 60],
            Prediction = replicate 60 None @
              map (\<lambda>m. Some (net [features (data ! m)])) [0..<length data - 60]\<rparr>)"
  by (auto simp: label_table_def generate_signals_batch_eq comp_def)

text \<open>
  Claim C5. The Signal and Prediction columns of the output table have one entry per
  input row, and the first 60 rows have no prediction and the signal HOLD. An output
  table exists whenever the input has at least 60 rows.
\<close>

theorem label_table_aligned:
  "(60 \<le> length data \<longrightarrow> (\<exists>t. label_table net data = Inr t)) \<and>
   (\<forall>t. label_table net data = Inr t \<longrightarrow>
      rows t = data \<and> length (Signal t) = length data \<and> length (Prediction t) = length data \<and>
      60 \<le> length data \<and>
      (\<forall>r < 60. Signal t ! r = HOLD \<and> Prediction t ! r = None))"
  by (auto simp: label_table_eq nth_append)

theorem label_table_aligned_witness:
  "60 \<le> length (replicate 61 (flat_row 100)) \<and>
   label_table (\<lambda>w. Fin 110) (replicate 61 (flat_row 100)) =
     Inr \<lparr>rows = replicate 61 (flat_row 100), Signal = replicate 60 HOLD @ [BUY],
          Prediction = replicate 60 None @ [Some (Fin 110)]\<rparr> \<and>
   length (replicate 60 HOLD @ [BUY]) = length (replicate 61 (flat_row 100)) \<and>
   length (replicate 60 (None :: fl option) @ [Some (Fin 110)]) = length (replicate 61 (flat_row 100)) \<and>
   (replicate 60 HOLD @ [BUY]) ! 0 = HOLD \<and>
   (replicate 60 (None :: fl option) @ [Some (Fin 110)]) ! 59 = None"
proof -
  have t: "label_table (\<lambda>w. Fin 110) (replicate 61 (flat_row 100)) =
     Inr \<lparr>rows = replicate 61 (flat_row 100), Signal = replicate 60 HOLD @ [BUY],
          Prediction = replicate 60 None @ [Some (Fin 110)]\<rparr>"
    by (simp add: label_table_eq decide_buy decide_sell decide_hold flat_row_def)
  from label_table_aligned[of "replicate 61 (flat_row 100)" "\<lambda>w. Fin 110"] t
  show ?thesis by (simp add: nth_append)
qed

text \<open>
  Claim C6 as stated fails on a table of 61 rows with Close 100 and a forecaster that
  always answers 110: the last row (position 60) is among the last 60 rows, and it
  carries the signal BUY and the prediction 110.
\<close>

theorem trailing_rows_counterexample:
  "label_table (\<lambda>w. Fin 110) (replicate 61 (flat_row 100)) =
     Inr \<lparr>rows = replicate 61 (flat_row 100), Signal = replicate 60 HOLD @ [BUY],
          Prediction = replicate 60 None @ [Some (Fin 110)]\<rparr> \<and>
   (replicate 60 HOLD @ [BUY]) ! 60 = BUY \<and>
   (replicate 60 (None :: fl option) @ [Some (Fin 110)]) ! 60 = Some (Fin 110)"
  by (simp add: label_table_eq decide_buy decide_sell decide_hold flat_row_def nth_append)

text \<open>
  Claim C6, amended. A window start i with i + 60 at or beyond the series length emits
  nothing: exactly \<open>len(data) - 60\<close> signals and predictions are emitted, for the window
  starts below \<open>len(data) - 60\<close>. They are written after 60 leading HOLD / null entries,
  so the first 60 rows stay HOLD with no prediction, and every row r from 60 on, the
  last rows included, carries the signal and the prediction emitted for window start
  r - 60.
\<close>

theorem skipped_windows_and_shift:
  "(\<forall>signals predictions.
      generate_signals_batch net data 512 0.005 (- 0.005) = Inr (signals, predictions) \<longrightarrow>
        length signals = length data - 60 \<and> length predictions = length data - 60 \<and>
        (\<forall>t. label_table net data = Inr t \<longrightarrow>
           (\<forall>r < 60. Signal t ! r = HOLD \<and> Prediction t ! r = None) \<and>
           (\<forall>r. 60 \<le> r \<and> r < length data \<longrightarrow>
              Signal t ! r = signals ! (r - 60) \<and> Prediction t ! r = Some (predictions ! (r - 60)))))"
  by (auto simp: label_table_eq generate_signals_batch_eq nth_append)

theorem skipped_windows_and_shift_witness:
  "generate_signals_batch (\<lambda>w. Fin 110) (replicate 61 (flat_row 100)) 512 0.005 (- 0.005)
     = Inr ([BUY], [Fin 110]) \<and>
   label_table (\<lambda>w. Fin 110) (replicate 61 (flat_row 100)) =
     Inr \<lparr>rows = replicate 61 (flat_row 100), Signal = replicate 60 HOLD @ [BUY],
          Prediction = replicate 60 None @ [Some (Fin 110)]\<rparr> \<and>
   length [BUY] = length (replicate 61 (flat_row 100)) - 60 \<and>
   (replicate 60 HOLD @ [BUY]) ! 60 = [BUY] ! (60 - 60) \<and>
   (replicate 60 None @ [Some (Fin 110)]) ! 60 = Some ([Fin 110] ! (60 - 60))"
proof -
  have g: "generate_signals_batch (\<lambda>w. Fin 110) (replicate 61 (flat_row 100)) 512 0.005 (- 0.005)
     = Inr ([BUY], [Fin 110])"
    by (simp add: generate_signals_batch_eq decide_buy decide_sell decide_hold flat_row_def)
  have t: "label_table (\<lambda>w. Fin 110) (replicate 61 (flat_row 100)) =
     Inr \<lparr>rows = replicate 61 (flat_row 100), Signal = replicate 60 HOLD @ [BUY],
          Prediction = replicate 60 None @ [Some (Fin 110)]\<rparr>"
    by (simp add: label_table_eq decide_buy decide_sell decide_hold flat_row_def)
  from skipped_windows_and_shift[of "\<lambda>w. Fin 110" "replicate 61 (flat_row 100)"] g t
  show ?thesis by (simp add: nth_append)
qed

text \<open>
  Claim C1 fails on the code. On the 61-row table whose Close counts 0, 1, ..., 60, with
  the forecaster that returns the Close of the last step of its window, the prediction
  emitted for window start 0 is the forecaster's answer on the single row 0 (that is 0),
  while its answer on the 60-step window of rows 0..59 is 59.
\<close>

theorem prediction_reads_one_row:
  "generate_signals_batch last_close (ramp 61) 512 0.005 (- 0.005) = Inr ([SELL], [Fin 0]) \<and>
   last_close (map features (iloc_slice (ramp 61) 0 60)) = Fin 59 \<and>
   last_close [features (ramp 61 ! 0)] = Fin 0"
proof -
  have a: "last_close [features (ramp 61 ! 0)] = Fin 0"
    by (simp add: nth_ramp features_flat_row last_close_def)
  have n: "length (map features (take 60 (ramp 61))) = 60"
    by (simp add: length_ramp)
  then have ne: "map features (take 60 (ramp 61)) \<noteq> []"
    by (metis length_0_conv zero_neq_numeral)
  have l: "last (map features (take 60 (ramp 61))) = features (ramp 61 ! 59)"
    unfolding last_conv_nth[OF ne] n by (simp add: length_ramp)
  have l': "last (map features (take 60 (ramp 61))) = Fin 59 # replicate 11 (Fin 0)"
    unfolding l by (simp add: nth_ramp features_flat_row)
  have b: "last_close (map features (iloc_slice (ramp 61) 0 60)) = Fin 59"
    using ne by (simp add: iloc_slice_def last_close_def l')
  have c: "Close (ramp 61 ! 60) = Fin 60"
    by (simp add: nth_ramp flat_row_def)
  have "generate_signals_batch last_close (ramp 61) 512 0.005 (- 0.005) = Inr ([SELL], [Fin 0])"
    by (simp add: generate_signals_batch_eq length_ramp a c decide_buy decide_sell decide_hold)
  with a b show ?thesis by simp
qed

text \<open>
  In general every emitted prediction is the forecaster's answer on the one-step window
  holding row i alone.
\<close>

lemma predictions_eq:
  assumes "0 < batch_size"
  shows "\<exists>signals predictions.
           generate_signals_batch net data batch_size tb ts = Inr (signals, predictions) \<and>
           length predictions = length data - 60 \<and>
           (\<forall>i < length data - 60. predictions ! i = net [features (data ! i)])"
  using assms by (simp add: generate_signals_batch_eq)

section \<open>Properties of the windowing dataset\<close>

lemma length_features: "length (features r) = 12"
  by (simp add: features_def)

lemma features_set_features:
  assumes "length v = 12"
  shows "features (set_features r v) = v"
proof -
  from assms obtain a1 a2 a3 a4 a5 a6 a7 a8 a9 a10 a11 a12
    where "v = [a1, a2, a3, a4, a5, a6, a7, a8, a9, a10, a11, a12]"
    by (auto simp: numeral_eq_Suc length_Suc_conv)
  then show ?thesis
    by (simp add: features_def)
qed

lemma length_transform: "length (transform sc X) = length X"
  by (simp add: transform_def)

lemma nth_transform:
  "i < length X \<Longrightarrow>
   transform sc X ! i = map (\<lambda>j. fadd64 (fmul64 (X ! i ! j) (sc_scale sc ! j)) (sc_min sc ! j)) [0..<length (X ! i)]"
  by (simp add: transform_def)

lemma features_rescaled:
  "map features (map2 set_features d (transform sc (map features d))) = transform sc (map features d)"
proof (rule nth_equalityI)
  show "length (map features (map2 set_features d (transform sc (map features d))))
        = length (transform sc (map features d))"
    by (simp add: length_transform)
next
  fix i assume "i < length (map features (map2 set_features d (transform sc (map features d))))"
  then have i: "i < length d" by (simp add: length_transform)
  then have "length (transform sc (map features d) ! i) = 12"
    by (simp add: nth_transform length_features)
  with i show "map features (map2 set_features d (transform sc (map features d))) ! i
        = transform sc (map features d) ! i"
    by (simp add: length_transform features_set_features)
qed

lemma TradeDataset_init_Inr:
  assumes "TradeDataset_init data sl = Inr self"
  shows "\<exists>sc. fit (map features (dropna data)) = Inr sc \<and>
           td_data self = map2 set_features (dropna data) (transform sc (map features (dropna data))) \<and>
           seq_len self = sl \<and> td_scaler self = sc"
  using assms
  by (auto simp: TradeDataset_init_def fit_transform_def Let_def split: sum.splits)

lemma length_td_data:
  assumes "TradeDataset_init data sl = Inr self"
  shows "length (td_data self) = length (dropna data)"
  using TradeDataset_init_Inr[OF assms] by (auto simp: length_transform)

lemma clip_index_nat: "clip_index n (int a) = min a n"
  by (simp add: clip_index_def)

lemma py_slice_nat: "py_slice xs (int a) (int a + int k) = take k (drop a xs)"
proof -
  have "py_slice xs (int a) (int (a + k)) = take (min (a + k) (length xs) - min a (length xs)) (drop (min a (length xs)) xs)"
    unfolding py_slice_def Let_def clip_index_nat ..
  also have "\<dots> = take k (drop a xs)"
  proof (cases "a \<le> length xs")
    case True
    then have "min a (length xs) = a" by simp
    moreover have "take (min (a + k) (length xs) - a) (drop a xs) = take k (drop a xs)"
    proof (cases "a + k \<le> length xs")
      case True
      then have "min (a + k) (length xs) - a = k" by simp
      then show ?thesis by simp
    next
      case False
      then show ?thesis using True by simp
    qed
    ultimately show ?thesis by simp
  next
    case False
    then show ?thesis by simp
  qed
  finally show ?thesis by simp
qed

lemma iloc_row_nat: "iloc_row xs (int k) = (if k < length xs then Inr (xs ! k) else Inl IndexError)"
  by (simp add: iloc_row_def)

lemma take_drop_nth:
  "i + k \<le> length xs \<Longrightarrow> take k (drop i xs) = map (\<lambda>m. xs ! (i + m)) [0..<k]"
  by (rule nth_equalityI) simp_all

lemma td_getitem_valid:
  assumes "0 \<le> i" "i < td_len self"
  shows "td_getitem self i =
           Inr (map (\<lambda>k. features (td_data self ! (nat i + k))) [0..<seq_len self],
                Close (td_data self ! (nat i + seq_len self)))"
proof -
  obtain a where a: "i = int a" using assms(1) by (metis nat_0_le)
  from assms(2) have lt: "a + seq_len self < length (td_data self)"
    by (simp add: td_len_def a)
  have s: "py_slice (td_data self) i (i + int (seq_len self)) = take (seq_len self) (drop a (td_data self))"
    unfolding a by (rule py_slice_nat)
  have r: "iloc_row (td_data self) (i + int (seq_len self)) = Inr (td_data self ! (a + seq_len self))"
    using lt iloc_row_nat[of "td_data self" "a + seq_len self"] by (simp add: a)
  have t: "take (seq_len self) (drop a (td_data self)) = map (\<lambda>m. td_data self ! (a + m)) [0..<seq_len self]"
    using lt by (intro take_drop_nth) simp
  show ?thesis
    unfolding td_getitem_def Let_def s r t by (simp add: a comp_def)
qed

lemma td_getitem_out_of_bounds:
  assumes "int (length (td_data self)) \<le> i + int (seq_len self)"
  shows "td_getitem self i = Inl IndexError"
proof -
  have "0 \<le> i + int (seq_len self)" using assms by linarith
  then show ?thesis
    using assms by (simp add: td_getitem_def iloc_row_def Let_def)
qed

lemma td_getitem_wrapped:
  assumes "- int (length (td_data self)) \<le> i + int (seq_len self)" "i + int (seq_len self) < 0"
  shows "td_getitem self i =
           Inr (map features (take (nat (i + int (seq_len self) + int (length (td_data self)))
                                     - nat (i + int (length (td_data self))))
                               (drop (nat (i + int (length (td_data self)))) (td_data self))),
                Close (td_data self ! nat (i + int (seq_len self) + int (length (td_data self)))))"
proof -
  have i: "i < 0" using assms(2) by linarith
  have "clip_index (length (td_data self)) i = nat (i + int (length (td_data self)))"
    using i by (simp add: clip_index_def max_def)
  moreover have "clip_index (length (td_data self)) (i + int (seq_len self))
      = nat (i + int (seq_len self) + int (length (td_data self)))"
    using assms by (simp add: clip_index_def max_def)
  ultimately show ?thesis
    using assms by (simp add: td_getitem_def py_slice_def iloc_row_def Let_def)
qed

lemma td_getitem_straddling:
  assumes "i < 0" "0 \<le> i + int (seq_len self)" "i + int (seq_len self) < int (length (td_data self))"
  shows "td_getitem self i =
           Inr (map features (take (nat (i + int (seq_len self)) - nat (i + int (length (td_data self))))
                               (drop (nat (i + int (length (td_data self)))) (td_data self))),
                Close (td_data self ! nat (i + int (seq_len self))))"
proof -
  have "clip_index (length (td_data self)) i = nat (i + int (length (td_data self)))"
    using assms(1) by (simp add: clip_index_def max_def)
  moreover have "nat (i + int (seq_len self)) \<le> length (td_data self)"
    using assms by linarith
  then have "clip_index (length (td_data self)) (i + int (seq_len self)) = nat (i + int (seq_len self))"
    using assms(2) by (simp add: clip_index_def min_def)
  ultimately show ?thesis
    using assms by (simp add: td_getitem_def py_slice_def iloc_row_def Let_def)
qed

lemma td_getitem_below:
  assumes "i + int (seq_len self) < - int (length (td_data self))"
  shows "td_getitem self i = Inl IndexError"
  using assms by (simp add: td_getitem_def iloc_row_def Let_def)

lemma td_getitem_error_iff:
  "td_getitem self i = Inl IndexError \<longleftrightarrow>
     int (length (td_data self)) \<le> i + int (seq_len self) \<or>
     i + int (seq_len self) < - int (length (td_data self))"
  by (auto simp: td_getitem_def iloc_row_def Let_def)

lemmas scaler_eval = fit_transform_def fit_def isinf_def column_def col_scale_def col_min_def
  nanmin_def nanmax_def handle_zeros_in_scale_def eps_def fsub64_def fadd64_def fmul64_def
  fdiv64_def transform_def

lemma upt_12: "[0..<12] = [0,1,2,3,4,5,6,7,8,9,10,11]"
  by (simp add: upt_rec)

lemma ramp_3: "ramp 3 = [flat_row 0, flat_row 1, flat_row 2]"
  by (simp add: ramp_def upt_rec)

lemma TradeDataset_init_ramp_3: "TradeDataset_init (ramp 3) 2 = Inr ramp_dataset"
  by (simp add: TradeDataset_init_def ramp_3 ramp_dataset_def flat_row_def dropna_def features_def
        isnan_def scaler_eval upt_12)

lemma dropna_gap_table: "dropna gap_table = [flat_row 0, flat_row 1, flat_row 2]"
  by (simp add: dropna_def gap_table_def flat_row_def features_def isnan_def)

lemma TradeDataset_init_gap_table: "TradeDataset_init gap_table 2 = Inr ramp_dataset"
  unfolding TradeDataset_init_def dropna_gap_table
  by (simp add: ramp_dataset_def flat_row_def features_def scaler_eval upt_12)

lemma td_getitem_ramp_dataset_0:
  "td_getitem ramp_dataset 0 = Inr ([features (flat_row 0), features (flat_row (1 / 2))], Fin 1)"
  by (simp add: td_getitem_def py_slice_def clip_index_def iloc_row_def ramp_dataset_def
        flat_row_def)

text \<open>
  Claim C3 as stated fails on the code. In the five-row table, four rows have all their
  indicator values (only row 0 lacks one), so the claim gives the length 4 - 2 = 2 for
  windows of two rows. The code's \<open>dropna()\<close> also drops row 2, whose indicators are
  complete and whose missing cell is in another column: three rows remain, and the
  length is 1.
\<close>

theorem dropna_any_column_counterexample:
  "TradeDataset_init gap_table 2 = Inr ramp_dataset \<and>
   length (filter (\<lambda>r. \<not> list_ex isnan (features r)) gap_table) = 4 \<and>
   td_len ramp_dataset = 1 \<and>
   list_ex isnan (features (gap_table ! 2)) = False \<and>
   length (td_data ramp_dataset) = 3"
  using TradeDataset_init_gap_table
  by (simp add: gap_table_def flat_row_def features_def isnan_def td_len_def ramp_dataset_def)

text \<open>
  Claim C3, amended. The constructor keeps exactly the rows that have no missing cell in
  any column, the feature and indicator columns and every other column of the table
  alike, in their order; the dataset's table holds these rows with their twelve feature
  cells replaced by the cells transformed by the scaler fitted on them. The length is
  the number of kept rows minus the window length (60 by default; any \<open>seq_len\<close> here).
  For every index i with 0 \<le> i < length, the sample is the matrix of the features of
  rows i .. i + seq_len - 1 of the dataset's table, seq_len rows of 12 cells, paired with
  the Close of row i + seq_len. The index length - 1 is the last one served: at index
  length the access raises IndexError.
\<close>

theorem windowing_dataset:
  assumes "TradeDataset_init data sl = Inr self"
  shows "td_len self =
           int (length (filter (\<lambda>r. \<not> list_ex isnan (features r) \<and> \<not> list_ex (\<lambda>b. b) (other_na r)) data))
           - int sl \<and>
         (\<exists>sc. fit (map features
                     (filter (\<lambda>r. \<not> list_ex isnan (features r) \<and> \<not> list_ex (\<lambda>b. b) (other_na r)) data))
                  = Inr sc \<and>
               td_data self =
                 map2 set_features
                   (filter (\<lambda>r. \<not> list_ex isnan (features r) \<and> \<not> list_ex (\<lambda>b. b) (other_na r)) data)
                   (transform sc (map features
                     (filter (\<lambda>r. \<not> list_ex isnan (features r) \<and> \<not> list_ex (\<lambda>b. b) (other_na r)) data)))) \<and>
         (\<forall>i. 0 \<le> i \<and> i < td_len self \<longrightarrow>
            td_getitem self i =
              Inr (map (\<lambda>k. features (td_data self ! (nat i + k))) [0..<sl],
                   Close (td_data self ! (nat i + sl))) \<and>
            length (map (\<lambda>k. features (td_data self ! (nat i + k))) [0..<sl]) = sl \<and>
            (\<forall>k < sl. length (features (td_data self ! (nat i + k))) = 12)) \<and>
         td_getitem self (td_len self) = Inl IndexError"
proof -
  from TradeDataset_init_Inr[OF assms] obtain sc
    where sc: "fit (map features (dropna data)) = Inr sc"
      "td_data self = map2 set_features (dropna data) (transform sc (map features (dropna data)))"
    and sl: "seq_len self = sl"
    by blast
  have len: "td_len self = int (length (dropna data)) - int sl"
    by (simp add: td_len_def sl length_td_data[OF assms])
  have valid: "td_getitem self i =
              Inr (map (\<lambda>k. features (td_data self ! (nat i + k))) [0..<sl],
                   Close (td_data self ! (nat i + sl)))" if "0 \<le> i" "i < td_len self" for i
    using td_getitem_valid[OF that] by (simp add: sl)
  have last: "td_getitem self (td_len self) = Inl IndexError"
    by (rule td_getitem_out_of_bounds) (simp add: td_len_def)
  from len valid last sc show ?thesis
    unfolding dropna_def by (simp add: length_features)
qed

theorem windowing_dataset_witness:
  "TradeDataset_init gap_table 2 = Inr ramp_dataset \<and>
   filter (\<lambda>r. \<not> list_ex isnan (features r) \<and> \<not> list_ex (\<lambda>b. b) (other_na r)) gap_table
     = [flat_row 0, flat_row 1, flat_row 2] \<and>
   td_len ramp_dataset = 1 \<and>
   td_getitem ramp_dataset 0 = Inr ([features (flat_row 0), features (flat_row (1 / 2))], Fin 1) \<and>
   td_getitem ramp_dataset 1 = Inl IndexError"
proof -
  have d: "filter (\<lambda>r. \<not> list_ex isnan (features r) \<and> \<not> list_ex (\<lambda>b. b) (other_na r)) gap_table
     = [flat_row 0, flat_row 1, flat_row 2]"
    using dropna_gap_table by (simp add: dropna_def)
  have u: "[0..<2] = [0, 1]"
    by (simp add: upt_rec)
  note w = windowing_dataset[OF TradeDataset_init_gap_table]
  from w have a: "td_len ramp_dataset = 1"
    unfolding d by simp
  from w have "0 \<le> (0::int) \<and> 0 < td_len ramp_dataset \<longrightarrow>
      td_getitem ramp_dataset 0 =
        Inr (map (\<lambda>k. features (td_data ramp_dataset ! (nat 0 + k))) [0..<2],
             Close (td_data ramp_dataset ! (nat 0 + 2)))"
    by blast
  with a have "td_getitem ramp_dataset 0 =
        Inr (map (\<lambda>k. features (td_data ramp_dataset ! (nat 0 + k))) [0..<2],
             Close (td_data ramp_dataset ! (nat 0 + 2)))"
    by simp
  then have b: "td_getitem ramp_dataset 0 =
        Inr ([features (flat_row 0), features (flat_row (1 / 2))], Fin 1)"
    by (simp add: u ramp_dataset_def flat_row_def)
  from w have c: "td_getitem ramp_dataset 1 = Inl IndexError"
    by (simp add: a)
  from TradeDataset_init_gap_table d a b c show ?thesis
    by blast
qed

text \<open>
  Claim C10 as stated fails on the code. With three rows and windows of two, the index
  -1 is not rejected: Python counts a negative position from the end, the slice
  \<open>iloc[-1:1]\<close> is empty and \<open>iloc[1]\<close> is row 1, so the sample is an empty matrix paired
  with the Close of row 1. Nothing in \<open>__getitem__\<close> checks a bound; the only error is
  the IndexError of the single-row access.
\<close>

theorem getitem_negative_index_counterexample:
  "td_getitem ramp_dataset (- 1) = Inr ([], Fin (1 / 2)) \<and>
   td_getitem ramp_dataset 0 = Inr ([features (flat_row 0), features (flat_row (1 / 2))], Fin 1) \<and>
   length (td_data ramp_dataset) = 3 \<and> seq_len ramp_dataset = 2"
  by (simp add: td_getitem_def py_slice_def clip_index_def iloc_row_def ramp_dataset_def
        flat_row_def)

text \<open>
  Claim C10, amended. With n rows, \<open>__getitem__\<close> raises IndexError exactly when
  \<open>idx + seq_len\<close> is at least n or below -n; in particular it fails whenever
  \<open>idx + seq_len\<close> reaches or exceeds the number of rows. For every other index it
  returns a sample, also for a negative one, which Python counts from the end of the
  table: for 0 \<le> idx the rows idx .. idx + seq_len - 1 with the Close of row
  idx + seq_len; for idx < 0 \<le> idx + seq_len the rows from n + idx (from 0 when that is
  negative) up to, not including, idx + seq_len, none when this range is empty, with the
  Close of row idx + seq_len; for idx + seq_len < 0 the rows from n + idx (or 0) up to,
  not including, n + idx + seq_len, with the Close of row n + idx + seq_len.
\<close>

theorem getitem_bounds:
  "(td_getitem self idx = Inl IndexError \<longleftrightarrow>
      int (length (td_data self)) \<le> idx + int (seq_len self) \<or>
      idx + int (seq_len self) < - int (length (td_data self))) \<and>
   (0 \<le> idx \<and> idx + int (seq_len self) < int (length (td_data self)) \<longrightarrow>
      td_getitem self idx =
        Inr (map (\<lambda>k. features (td_data self ! (nat idx + k))) [0..<seq_len self],
             Close (td_data self ! (nat idx + seq_len self)))) \<and>
   (idx < 0 \<and> 0 \<le> idx + int (seq_len self) \<and> idx + int (seq_len self) < int (length (td_data self)) \<longrightarrow>
      td_getitem self idx =
        Inr (map features (take (nat (idx + int (seq_len self)) - nat (idx + int (length (td_data self))))
                            (drop (nat (idx + int (length (td_data self)))) (td_data self))),
             Close (td_data self ! nat (idx + int (seq_len self))))) \<and>
   (- int (length (td_data self)) \<le> idx + int (seq_len self) \<and> idx + int (seq_len self) < 0 \<longrightarrow>
      td_getitem self idx =
        Inr (map features (take (nat (idx + int (seq_len self) + int (length (td_data self)))
                                  - nat (idx + int (length (td_data self))))
                            (drop (nat (idx + int (length (td_data self)))) (td_data self))),
             Close (td_data self ! nat (idx + int (seq_len self) + int (length (td_data self))))))"
proof (intro conjI impI)
  show "td_getitem self idx = Inl IndexError \<longleftrightarrow>
      int (length (td_data self)) \<le> idx + int (seq_len self) \<or>
      idx + int (seq_len self) < - int (length (td_data self))"
    by (rule td_getitem_error_iff)
next
  assume "0 \<le> idx \<and> idx + int (seq_len self) < int (length (td_data self))"
  then show "td_getitem self idx =
        Inr (map (\<lambda>k. features (td_data self ! (nat idx + k))) [0..<seq_len self],
             Close (td_data self ! (nat idx + seq_len self)))"
    by (intro td_getitem_valid) (simp_all add: td_len_def)
next
  assume "idx < 0 \<and> 0 \<le> idx + int (seq_len self) \<and> idx + int (seq_len self) < int (length (td_data self))"
  then show "td_getitem self idx =
        Inr (map features (take (nat (idx + int (seq_len self)) - nat (idx + int (length (td_data self))))
                            (drop (nat (idx + int (length (td_data self)))) (td_data self))),
             Close (td_data self ! nat (idx + int (seq_len self))))"
    by (intro td_getitem_straddling) simp_all
next
  assume "- int (length (td_data self)) \<le> idx + int (seq_len self) \<and> idx + int (seq_len self) < 0"
  then show "td_getitem self idx =
        Inr (map features (take (nat (idx + int (seq_len self) + int (length (td_data self)))
                                  - nat (idx + int (length (td_data self))))
                            (drop (nat (idx + int (length (td_data self)))) (td_data self))),
             Close (td_data self ! nat (idx + int (seq_len self) + int (length (td_data self)))))"
    by (intro td_getitem_wrapped) simp_all
qed

theorem getitem_bounds_witness:
  "td_getitem ramp_dataset 1 = Inl IndexError \<and>
   td_getitem ramp_dataset 7 = Inl IndexError \<and>
   td_getitem ramp_dataset (- 6) = Inl IndexError \<and>
   td_getitem ramp_dataset 0 = Inr ([features (flat_row 0), features (flat_row (1 / 2))], Fin 1) \<and>
   td_getitem ramp_dataset (- 1) = Inr ([], Fin (1 / 2)) \<and>
   td_getitem ramp_dataset (- 3) = Inr ([features (flat_row 0), features (flat_row (1 / 2))], Fin 1)"
proof -
  have n: "length (td_data ramp_dataset) = 3" "seq_len ramp_dataset = 2"
    by (simp_all add: ramp_dataset_def)
  have u: "[0..<2] = [0, 1]"
    by (simp add: upt_rec)
  have d: "td_data ramp_dataset = [flat_row 0, flat_row (1 / 2), flat_row 1]"
    by (simp add: ramp_dataset_def)
  have c: "Close (flat_row x) = Fin x" for x
    by (simp add: flat_row_def)
  from getitem_bounds[of ramp_dataset 1] have a1: "td_getitem ramp_dataset 1 = Inl IndexError"
    by (simp add: n)
  from getitem_bounds[of ramp_dataset 7] have a2: "td_getitem ramp_dataset 7 = Inl IndexError"
    by (simp add: n)
  from getitem_bounds[of ramp_dataset "- 6"] have a3: "td_getitem ramp_dataset (- 6) = Inl IndexError"
    by (simp add: n)
  from getitem_bounds[of ramp_dataset 0]
  have a4: "td_getitem ramp_dataset 0 = Inr ([features (flat_row 0), features (flat_row (1 / 2))], Fin 1)"
    by (simp add: n u d c)
  from getitem_bounds[of ramp_dataset "- 1"]
  have a5: "td_getitem ramp_dataset (- 1) = Inr ([], Fin (1 / 2))"
    by (simp add: n d c)
  from getitem_bounds[of ramp_dataset "- 3"]
  have a6: "td_getitem ramp_dataset (- 3) = Inr ([features (flat_row 0), features (flat_row (1 / 2))], Fin 1)"
    by (simp add: n d c)
  from a1 a2 a3 a4 a5 a6 show ?thesis by blast
qed

section \<open>Properties of the second scaling\<close>

lemma finite_vals_map_Fin: "finite_vals (map Fin vs) = vs"
  by (induction vs) simp_all

lemma all_finite_map_Fin:
  assumes "\<forall>x \<in> set col. \<not> isnan x \<and> \<not> isinf x"
  shows "col = map Fin (finite_vals col)"
  using assms
proof (induction col)
  case Nil
  then show ?case by simp
next
  case (Cons x xs)
  then show ?case
    by (cases x) (simp_all add: isnan_def isinf_def)
qed

lemma nanmin_map_Fin: "vs \<noteq> [] \<Longrightarrow> nanmin (map Fin vs) = Fin (Min (set vs))"
  by (cases vs) (simp_all add: nanmin_def finite_vals_map_Fin)

lemma nanmax_map_Fin: "vs \<noteq> [] \<Longrightarrow> nanmax (map Fin vs) = Fin (Max (set vs))"
  by (cases vs) (simp_all add: nanmax_def finite_vals_map_Fin)

lemma rd64_1 [simp]: "rd64 1 = 1"
  using rd64_pow2[of 0] by simp

text \<open>
  The fitted scale of a column whose finite cells lie between -2 and 2: no operation
  overflows, the range is rounded once and its reciprocal once.
\<close>

lemma col_scale_bounded:
  assumes mn: "nanmin col = Fin mn" and mx: "nanmax col = Fin mx"
    and b: "- 2 \<le> mn" "mn \<le> mx" "mx \<le> 2"
    and s: "s = (if rd64 (mx - mn) < 10 * eps then 1 else rd64 (1 / rd64 (mx - mn)))"
  shows "col_scale col = Fin s" and "0 \<le> s" and "s \<le> 2 ^ 49"
proof -
  define R where "R = rd64 (mx - mn)"
  have D: "\<bar>mx - mn\<bar> \<le> 2 powr of_int 2"
    using b by simp
  have sub: "fsub64 (Fin mx) (Fin mn) = Fin R"
    unfolding R_def by (rule fsub64_Fin[OF D]) simp_all
  define R' where "R' = (if R < 10 * eps then 1 else R)"
  have hz: "handle_zeros_in_scale (Fin R) = Fin R'"
    by (simp add: handle_zeros_in_scale_def R'_def)
  have lo: "10 / 2 ^ 52 \<le> R'"
    unfolding R'_def by (simp add: eps_def)
  then have pos: "0 < R'"
    by (smt (verit) divide_pos_pos zero_less_numeral zero_less_power)
  have "1 / R' \<le> 1 / (10 / 2 ^ 52)"
    using lo by (intro divide_left_mono) simp_all
  also have "\<dots> \<le> (2::real) ^ 49"
    by simp
  finally have inv: "1 / R' \<le> 2 ^ 49" .
  have inv0: "0 \<le> 1 / R'"
    using pos by simp
  have inv': "\<bar>1 / R'\<bar> \<le> 2 powr of_int 49"
    using inv inv0 by simp
  have dv: "fdiv64 (Fin 1) (Fin R') = Fin (rd64 (1 / R'))"
    by (rule fdiv64_Fin[OF _ inv']) (use pos in simp_all)
  have e: "rd64 (1 / R') = s"
    unfolding s R'_def R_def by simp
  show "col_scale col = Fin s"
    unfolding col_scale_def mn mx sub hz dv e ..
  show "0 \<le> s"
    unfolding e[symmetric] by (rule rd64_nonneg[OF inv0])
  from rd64_abs_le_pow2[OF inv'] show "s \<le> 2 ^ 49"
    unfolding e by simp
qed

lemma col_min_bounded:
  assumes mn: "nanmin col = Fin mn" and mx: "nanmax col = Fin mx"
    and b: "- 2 \<le> mn" "mn \<le> mx" "mx \<le> 2"
    and s: "s = (if rd64 (mx - mn) < 10 * eps then 1 else rd64 (1 / rd64 (mx - mn)))"
  shows "col_min col = Fin (- rd64 (mn * s))"
proof -
  note c = col_scale_bounded[OF assms]
  have "\<bar>mn * s\<bar> = \<bar>mn\<bar> * s"
    using c(2) by (simp add: abs_mult)
  also have "\<dots> \<le> 2 * 2 ^ 49"
    using b c(2,3) by (intro mult_mono) simp_all
  finally have m: "\<bar>mn * s\<bar> \<le> 2 powr of_int 50"
    by simp
  have ml: "fmul64 (Fin mn) (Fin s) = Fin (rd64 (mn * s))"
    by (rule fmul64_Fin[OF m]) simp_all
  have a: "\<bar>0 - rd64 (mn * s)\<bar> \<le> 2 powr of_int 50"
    using rd64_abs_le_pow2[OF m] by simp
  have sb: "fsub64 (Fin 0) (Fin (rd64 (mn * s))) = Fin (rd64 (0 - rd64 (mn * s)))"
    by (rule fsub64_Fin[OF a]) simp_all
  have "rd64 (0 - rd64 (mn * s)) = - rd64 (mn * s)"
    by (simp add: rd64_minus rd64_idem)
  then show ?thesis
    unfolding col_min_def mn c(1) ml sb by simp
qed

lemma cell_bounded:
  assumes "\<bar>v\<bar> \<le> 2" "\<bar>mn\<bar> \<le> 2" "0 \<le> s" "s \<le> 2 ^ 49"
  shows "fadd64 (fmul64 (Fin v) (Fin s)) (Fin (- rd64 (mn * s)))
           = Fin (rd64 (rd64 (v * s) - rd64 (mn * s)))"
proof -
  have p: "\<bar>w * s\<bar> \<le> 2 powr of_int 50" if "\<bar>w\<bar> \<le> 2" for w
  proof -
    have "\<bar>w * s\<bar> = \<bar>w\<bar> * s"
      using assms(3) by (simp add: abs_mult)
    also have "\<dots> \<le> 2 * 2 ^ 49"
      using that assms(3,4) by (intro mult_mono) simp_all
    finally show ?thesis by simp
  qed
  have ml: "fmul64 (Fin v) (Fin s) = Fin (rd64 (v * s))"
    by (rule fmul64_Fin[OF p[OF assms(1)]]) simp_all
  have "\<bar>rd64 (v * s)\<bar> \<le> 2 powr of_int 50" "\<bar>rd64 (mn * s)\<bar> \<le> 2 powr of_int 50"
    using rd64_abs_le_pow2[OF p[OF assms(1)]] rd64_abs_le_pow2[OF p[OF assms(2)]] by simp_all
  then have "\<bar>rd64 (v * s) + - rd64 (mn * s)\<bar> \<le> 2 powr of_int 51"
    by simp
  from fadd64_Fin[OF this] show ?thesis
    unfolding ml by simp
qed

lemma rescale_col_bounded:
  assumes ne: "vs \<noteq> []" and b: "- 2 \<le> Min (set vs)" "Max (set vs) \<le> 2"
    and s: "s = (if rd64 (Max (set vs) - Min (set vs)) < 10 * eps then 1
                 else rd64 (1 / rd64 (Max (set vs) - Min (set vs))))"
  shows "rescale_col (map Fin vs)
           = map (\<lambda>v. Fin (rd64 (rd64 (v * s) - rd64 (Min (set vs) * s)))) vs"
proof -
  have le: "Min (set vs) \<le> Max (set vs)"
    using ne by simp
  note n = nanmin_map_Fin[OF ne] nanmax_map_Fin[OF ne]
  note c = col_scale_bounded[OF n b(1) le b(2) s]
  note m = col_min_bounded[OF n b(1) le b(2) s]
  have mnb: "\<bar>Min (set vs)\<bar> \<le> 2"
    using b le by simp
  have "fadd64 (fmul64 (Fin v) (Fin s)) (Fin (- rd64 (Min (set vs) * s)))
           = Fin (rd64 (rd64 (v * s) - rd64 (Min (set vs) * s)))" if "v \<in> set vs" for v
  proof -
    have "Min (set vs) \<le> v" "v \<le> Max (set vs)"
      using that by simp_all
    then have "\<bar>v\<bar> \<le> 2" using b by simp
    then show ?thesis
      by (rule cell_bounded[OF _ mnb c(2,3)])
  qed
  then show ?thesis
    unfolding rescale_col_def c(1) m by (simp add: comp_def)
qed

lemma rescale_mono:
  assumes "0 \<le> s"
  shows "mono (\<lambda>v. rd64 (rd64 (v * s) - a))"
proof (rule monoI)
  fix x y :: real assume "x \<le> y"
  then have "x * s \<le> y * s"
    using assms by (simp add: mult_right_mono)
  then have "rd64 (x * s) - a \<le> rd64 (y * s) - a"
    using rd64_mono by simp
  then show "rd64 (rd64 (x * s) - a) \<le> rd64 (rd64 (y * s) - a)"
    by (rule rd64_mono)
qed

text \<open>
  Minimum and maximum of the re-scaled column: the minimum is exactly 0, the maximum is
  the re-scaled maximum.
\<close>

lemma rescale_col_min_max:
  assumes ne: "vs \<noteq> []" and b: "- 2 \<le> Min (set vs)" "Max (set vs) \<le> 2"
    and s: "s = (if rd64 (Max (set vs) - Min (set vs)) < 10 * eps then 1
                 else rd64 (1 / rd64 (Max (set vs) - Min (set vs))))"
  shows "nanmin (rescale_col (map Fin vs)) = Fin 0"
    and "nanmax (rescale_col (map Fin vs))
           = Fin (rd64 (rd64 (Max (set vs) * s) - rd64 (Min (set vs) * s)))"
proof -
  define a where "a = rd64 (Min (set vs) * s)"
  define f where "f = (\<lambda>v. rd64 (rd64 (v * s) - a))"
  have le: "Min (set vs) \<le> Max (set vs)"
    using ne by simp
  note n = nanmin_map_Fin[OF ne] nanmax_map_Fin[OF ne]
  note c = col_scale_bounded[OF n b(1) le b(2) s]
  have mono: "mono f"
    unfolding f_def by (rule rescale_mono[OF c(2)])
  have r: "rescale_col (map Fin vs) = map Fin (map f vs)"
    unfolding rescale_col_bounded[OF assms] f_def a_def by (simp add: comp_def)
  have ne': "map f vs \<noteq> []" using ne by simp
  have fin: "finite (set vs)" "set vs \<noteq> {}" using ne by simp_all
  have "Min (set (map f vs)) = f (Min (set vs))"
    using mono_Min_commute[OF mono fin] by simp
  also have "\<dots> = 0"
    by (simp add: f_def a_def)
  finally show "nanmin (rescale_col (map Fin vs)) = Fin 0"
    unfolding r nanmin_map_Fin[OF ne'] by simp
  have "Max (set (map f vs)) = f (Max (set vs))"
    using mono_Max_commute[OF mono fin] by simp
  then show "nanmax (rescale_col (map Fin vs))
           = Fin (rd64 (rd64 (Max (set vs) * s) - rd64 (Min (set vs) * s)))"
    unfolding r nanmax_map_Fin[OF ne'] by (simp add: f_def a_def)
qed

text \<open>
  When the range of the column is at least 2^-20, the re-scaled maximum is within 10^-6
  of 1: five roundings, each relative to a magnitude of at most 2^23.
\<close>

lemma rescaled_max_close:
  assumes b: "- 2 \<le> mn" "mx \<le> 2" and d: "1 / 2 ^ 20 \<le> mx - mn"
  shows "\<not> rd64 (mx - mn) < 10 * eps"
    and "\<bar>rd64 (rd64 (mx * rd64 (1 / rd64 (mx - mn))) - rd64 (mn * rd64 (1 / rd64 (mx - mn)))) - 1\<bar>
           \<le> 1 / 10 ^ 6"
proof -
  define D where "D = mx - mn"
  define R where "R = rd64 D"
  define s where "s = rd64 (1 / R)"
  define P where "P = rd64 (mx * s)"
  define a where "a = rd64 (mn * s)"
  have D: "1 / 2 ^ 20 \<le> D" "D \<le> 4" "0 \<le> D"
    using b d by (simp_all add: D_def)
  have "\<bar>D\<bar> / 2 ^ 53 \<le> 4 / 2 ^ 53"
    using D by (simp add: divide_right_mono)
  moreover have "(4::real) / 2 ^ 53 + 1 / 2 ^ 60 \<le> 1 / 2 ^ 50" by simp
  ultimately have eR: "\<bar>R - D\<bar> \<le> 1 / 2 ^ 50"
    using rd64_error_60[of D] unfolding R_def by linarith
  have "(1::real) / 2 ^ 20 - 1 / 2 ^ 50 \<ge> 1 / 2 ^ 21" by simp
  then have Rlo: "1 / 2 ^ 21 \<le> R"
    using eR D(1) by linarith
  have Rpos: "0 < R"
    using Rlo by (smt (verit) divide_pos_pos zero_less_numeral zero_less_power zero_less_one)
  have "(10::real) * eps \<le> 1 / 2 ^ 21" by (simp add: eps_def)
  then show "\<not> rd64 (mx - mn) < 10 * eps"
    using Rlo unfolding R_def D_def by linarith
  have "1 / R \<le> 1 / (1 / 2 ^ 21)"
    using Rlo by (intro divide_left_mono) simp_all
  then have inv: "1 / R \<le> 2 ^ 21" by simp
  have inv0: "0 \<le> 1 / R" using Rpos by simp
  have "\<bar>1 / R\<bar> / 2 ^ 53 \<le> 2 ^ 21 / 2 ^ 53"
    using inv inv0 by (simp add: divide_right_mono)
  moreover have "(2::real) ^ 21 / 2 ^ 53 + 1 / 2 ^ 60 \<le> 1 / 2 ^ 31" by simp
  ultimately have es: "\<bar>s - 1 / R\<bar> \<le> 1 / 2 ^ 31"
    using rd64_error_60[of "1 / R"] unfolding s_def by linarith
  have s0: "0 \<le> s"
    unfolding s_def by (rule rd64_nonneg[OF inv0])
  have "(2::real) ^ 21 + 1 / 2 ^ 31 \<le> 2 ^ 22" by simp
  then have s22: "s \<le> 2 ^ 22"
    using es inv by linarith
  have "D * s - D * (1 / R) = D * (s - 1 / R)"
    by (simp only: right_diff_distrib)
  then have "\<bar>D * s - D * (1 / R)\<bar> = D * \<bar>s - 1 / R\<bar>"
    using D(3) by (simp only: abs_mult abs_of_nonneg)
  also have "\<dots> \<le> 4 * (1 / 2 ^ 31)"
    using D es by (intro mult_mono) simp_all
  finally have t1: "\<bar>D * s - D * (1 / R)\<bar> \<le> 1 / 2 ^ 29" by simp
  have "D * (1 / R) - 1 = (D - R) * (1 / R)"
    using Rpos by (simp add: field_simps)
  then have "\<bar>D * (1 / R) - 1\<bar> = \<bar>D - R\<bar> * (1 / R)"
    using inv0 by (simp add: abs_mult)
  also have "\<dots> \<le> (1 / 2 ^ 50) * 2 ^ 21"
    using eR[unfolded abs_minus_commute[of R D]] inv inv0 by (intro mult_mono) simp_all
  finally have t2: "\<bar>D * (1 / R) - 1\<bar> \<le> 1 / 2 ^ 29" by simp
  have w: "\<bar>w * s\<bar> \<le> 2 ^ 23" if "\<bar>w\<bar> \<le> 2" for w
  proof -
    have "\<bar>w * s\<bar> = \<bar>w\<bar> * s"
      using s0 by (simp add: abs_mult)
    also have "\<dots> \<le> 2 * 2 ^ 22"
      using that s0 s22 by (intro mult_mono) simp_all
    finally show ?thesis by simp
  qed
  have er: "\<bar>rd64 (w * s) - w * s\<bar> \<le> 1 / 2 ^ 29" if "\<bar>w\<bar> \<le> 2" for w
  proof -
    have "\<bar>w * s\<bar> / 2 ^ 53 \<le> 2 ^ 23 / 2 ^ 53"
      using w[OF that] by (simp add: divide_right_mono)
    moreover have "(2::real) ^ 23 / 2 ^ 53 + 1 / 2 ^ 60 \<le> 1 / 2 ^ 29" by simp
    ultimately show ?thesis
      using rd64_error_60[of "w * s"] by linarith
  qed
  have bm: "\<bar>mx\<bar> \<le> 2" "\<bar>mn\<bar> \<le> 2"
    using b d by simp_all
  have eP: "\<bar>P - mx * s\<bar> \<le> 1 / 2 ^ 29"
    unfolding P_def by (rule er[OF bm(1)])
  have ea: "\<bar>a - mn * s\<bar> \<le> 1 / 2 ^ 29"
    unfolding a_def by (rule er[OF bm(2)])
  have alg: "mx * s - mn * s = D * s"
    by (simp add: D_def algebra_simps)
  have "(1::real) / 2 ^ 29 + 1 / 2 ^ 29 + (1 / 2 ^ 29 + 1 / 2 ^ 29) \<le> 1 / 2 ^ 27" by simp
  then have q: "\<bar>(P - a) - 1\<bar> \<le> 1 / 2 ^ 27"
    using eP ea t1 t2 alg by linarith
  have "(1::real) / 2 ^ 27 \<le> 1" by simp
  then have "\<bar>P - a\<bar> \<le> 2"
    using q by linarith
  then have "\<bar>P - a\<bar> / 2 ^ 53 \<le> 2 / 2 ^ 53"
    by (simp add: divide_right_mono)
  moreover have "(2::real) / 2 ^ 53 + 1 / 2 ^ 60 \<le> 1 / 2 ^ 50" by simp
  ultimately have e5: "\<bar>rd64 (P - a) - (P - a)\<bar> \<le> 1 / 2 ^ 50"
    using rd64_error_60[of "P - a"] by linarith
  have "(1::real) / 2 ^ 27 + 1 / 2 ^ 50 \<le> 1 / 10 ^ 6" by simp
  then have "\<bar>rd64 (P - a) - 1\<bar> \<le> 1 / 10 ^ 6"
    using q e5 by linarith
  then show "\<bar>rd64 (rd64 (mx * rd64 (1 / rd64 (mx - mn))) - rd64 (mn * rd64 (1 / rd64 (mx - mn)))) - 1\<bar>
           \<le> 1 / 10 ^ 6"
    unfolding P_def a_def s_def R_def D_def .
qed

lemma rescale_col_constant:
  assumes ne: "vs \<noteq> []" and b: "- 2 \<le> Min (set vs)" "Max (set vs) \<le> 2"
    and c: "Max (set vs) = Min (set vs)"
  shows "nanmax (rescale_col (map Fin vs)) = Fin 0"
  using rescale_col_min_max(2)[OF ne b refl] by (simp add: c)

lemma rescale_col_unchanged:
  assumes ne: "vs \<noteq> []" and m: "Min (set vs) = 0" "Max (set vs) = 1"
    and r: "\<forall>v \<in> set vs. rd64 v = v"
  shows "rescale_col (map Fin vs) = map Fin vs"
proof -
  have e: "\<not> (1::real) < 10 * eps" by (simp add: eps_def)
  have "rescale_col (map Fin vs) = map (\<lambda>v. Fin (rd64 (rd64 (v * 1) - rd64 (0 * 1)))) vs"
    using rescale_col_bounded[OF ne _ _ refl] e by (simp add: m)
  also have "\<dots> = map Fin vs"
    using r by (simp add: rd64_idem)
  finally show ?thesis .
qed

lemma fit_Inr:
  assumes "fit X = Inr sc"
  shows "X \<noteq> []" and "\<not> list_ex (list_ex isinf) X"
    and "sc_scale sc = map (\<lambda>j. col_scale (column X j)) [0..<length (hd X)]"
    and "sc_min sc = map (\<lambda>j. col_min (column X j)) [0..<length (hd X)]"
  using assms by (auto simp: fit_def split: list.splits if_splits)

lemma fit_error_iff: "fit X = Inl ValueError \<longleftrightarrow> X = [] \<or> list_ex (list_ex isinf) X"
  by (auto simp: fit_def split: list.splits)

lemma fit_cases: "fit X = Inl ValueError \<or> (\<exists>sc. fit X = Inr sc)"
  by (auto simp: fit_def split: list.splits)

lemma TradeDataset_init_error_iff:
  "TradeDataset_init data sl = Inl ValueError \<longleftrightarrow>
     dropna data = [] \<or> list_ex (\<lambda>r. list_ex isinf (features r)) (dropna data)"
proof -
  have "TradeDataset_init data sl = Inl ValueError \<longleftrightarrow> fit (map features (dropna data)) = Inl ValueError"
    using fit_cases[of "map features (dropna data)"]
    by (auto simp: TradeDataset_init_def fit_transform_def Let_def)
  then show ?thesis
    by (simp add: fit_error_iff list_ex_iff)
qed

lemma TradeDataset_init_cases:
  "TradeDataset_init data sl = Inl ValueError \<or> (\<exists>self. TradeDataset_init data sl = Inr self)"
  using fit_cases[of "map features (dropna data)"]
  by (auto simp: TradeDataset_init_def fit_transform_def Let_def)

lemma column_transform:
  assumes "fit X = Inr sc" and "\<forall>r \<in> set X. length r = n" and "j < n"
  shows "column (transform sc X) j = rescale_col (column X j)"
proof -
  from fit_Inr(1)[OF assms(1)] assms(2) have w: "length (hd X) = n"
    by (cases X) simp_all
  have s: "sc_scale sc ! j = col_scale (column X j)" "sc_min sc ! j = col_min (column X j)"
    using assms(3) by (simp_all add: fit_Inr(3,4)[OF assms(1)] w)
  have "column (transform sc X) j = map (\<lambda>r. fadd64 (fmul64 (r ! j) (sc_scale sc ! j)) (sc_min sc ! j)) X"
    using assms(2,3) by (simp add: column_def transform_def)
  then show ?thesis
    by (simp add: s rescale_col_def column_def comp_def)
qed

lemma dropna_no_nan:
  assumes "r \<in> set (dropna data)"
  shows "\<not> list_ex isnan (features r)"
  using assms by (simp add: dropna_def)

lemma retained_column_finite:
  assumes "fit (map features (dropna data)) = Inr sc" and "j < 12"
  shows "\<exists>vs. vs \<noteq> [] \<and> column (map features (dropna data)) j = map Fin vs"
proof -
  let ?X = "map features (dropna data)"
  let ?col = "column ?X j"
  have "\<not> isnan x \<and> \<not> isinf x" if "x \<in> set ?col" for x
  proof -
    from that obtain r where r: "r \<in> set (dropna data)" and x: "x = features r ! j"
      by (auto simp: column_def)
    from assms(2) have m: "x \<in> set (features r)"
      unfolding x by (simp add: length_features)
    from dropna_no_nan[OF r] m have "\<not> isnan x"
      by (auto simp: list_ex_iff)
    moreover from fit_Inr(2)[OF assms(1)] r m have "\<not> isinf x"
      by (auto simp: list_ex_iff)
    ultimately show ?thesis by simp
  qed
  then have c: "?col = map Fin (finite_vals ?col)"
    by (intro all_finite_map_Fin) simp
  from fit_Inr(1)[OF assms(1)] have "?col \<noteq> []"
    by (simp add: column_def)
  with c have "finite_vals ?col \<noteq> []"
    by (metis list.simps(8))
  with c show ?thesis by blast
qed

lemma td_column:
  assumes "TradeDataset_init data sl = Inr self" and "j < 12"
  shows "column (map features (td_data self)) j = rescale_col (column (map features (dropna data)) j)"
proof -
  from TradeDataset_init_Inr[OF assms(1)] obtain sc
    where f: "fit (map features (dropna data)) = Inr sc"
      and d: "td_data self = map2 set_features (dropna data) (transform sc (map features (dropna data)))"
    by blast
  have "map features (td_data self) = transform sc (map features (dropna data))"
    unfolding d by (rule features_rescaled)
  moreover have "\<forall>r \<in> set (map features (dropna data)). length r = 12"
    by (simp add: length_features)
  ultimately show ?thesis
    using column_transform[OF f _ assms(2)] by simp
qed

lemma close_column: "map Close X = column (map features X) 0"
  by (simp add: column_def features_def comp_def)

text \<open>
  One column of a constructed dataset, when the retained cells of the column lie between
  -2 and 2.
\<close>

lemma rescaled_column:
  assumes i: "TradeDataset_init data sl = Inr self" and j: "j < 12"
  shows "\<exists>mn mx s.
           nanmin (column (map features (dropna data)) j) = Fin mn \<and>
           nanmax (column (map features (dropna data)) j) = Fin mx \<and> mn \<le> mx \<and>
           s = (if rd64 (mx - mn) < 10 * eps then 1 else rd64 (1 / rd64 (mx - mn))) \<and>
           column (map features (td_data self)) j =
             map (\<lambda>x. fadd64 (fmul64 x (col_scale (column (map features (dropna data)) j)))
                              (col_min (column (map features (dropna data)) j)))
                 (column (map features (dropna data)) j) \<and>
           (- 2 \<le> mn \<and> mx \<le> 2 \<longrightarrow>
              col_scale (column (map features (dropna data)) j) = Fin s \<and>
              col_min (column (map features (dropna data)) j) = Fin (- rd64 (mn * s)) \<and>
              nanmin (column (map features (td_data self)) j) = Fin 0 \<and>
              nanmax (column (map features (td_data self)) j)
                = Fin (rd64 (rd64 (mx * s) - rd64 (mn * s))) \<and>
              (mx = mn \<longrightarrow> nanmax (column (map features (td_data self)) j) = Fin 0) \<and>
              (1 / 2 ^ 20 \<le> mx - mn \<longrightarrow>
                 \<bar>rd64 (rd64 (mx * s) - rd64 (mn * s)) - 1\<bar> \<le> 1 / 10 ^ 6) \<and>
              (column (map features (td_data self)) j = column (map features (dropna data)) j
                 \<longrightarrow> mn = 0) \<and>
              (mn = 0 \<and> mx = 1 \<and>
               (\<forall>v. Fin v \<in> set (column (map features (dropna data)) j) \<longrightarrow> rd64 v = v) \<longrightarrow>
                 column (map features (td_data self)) j = column (map features (dropna data)) j))"
proof -
  define col where "col = column (map features (dropna data)) j"
  define col' where "col' = column (map features (td_data self)) j"
  from TradeDataset_init_Inr[OF i] obtain sc
    where f: "fit (map features (dropna data)) = Inr sc"
    by blast
  from retained_column_finite[OF f j] obtain vs
    where ne: "vs \<noteq> []" and c: "col = map Fin vs"
    unfolding col_def by blast
  define mn where "mn = Min (set vs)"
  define mx where "mx = Max (set vs)"
  define s where "s = (if rd64 (mx - mn) < 10 * eps then 1 else rd64 (1 / rd64 (mx - mn)))"
  have t: "col' = rescale_col col"
    unfolding col'_def col_def by (rule td_column[OF i j])
  have 1: "nanmin col = Fin mn"
    unfolding c mn_def by (rule nanmin_map_Fin[OF ne])
  have 2: "nanmax col = Fin mx"
    unfolding c mx_def by (rule nanmax_map_Fin[OF ne])
  have 3: "mn \<le> mx"
    unfolding mn_def mx_def using ne by simp
  have 4: "col' = map (\<lambda>x. fadd64 (fmul64 x (col_scale col)) (col_min col)) col"
    unfolding t rescale_col_def ..
  have 5: "col_scale col = Fin s \<and> col_min col = Fin (- rd64 (mn * s)) \<and>
           nanmin col' = Fin 0 \<and> nanmax col' = Fin (rd64 (rd64 (mx * s) - rd64 (mn * s))) \<and>
           (mx = mn \<longrightarrow> nanmax col' = Fin 0) \<and>
           (1 / 2 ^ 20 \<le> mx - mn \<longrightarrow> \<bar>rd64 (rd64 (mx * s) - rd64 (mn * s)) - 1\<bar> \<le> 1 / 10 ^ 6) \<and>
           (col' = col \<longrightarrow> mn = 0) \<and>
           (mn = 0 \<and> mx = 1 \<and> (\<forall>v. Fin v \<in> set col \<longrightarrow> rd64 v = v) \<longrightarrow> col' = col)"
    if b: "- 2 \<le> mn \<and> mx \<le> 2"
  proof -
    from b have b1: "- 2 \<le> mn" and b2: "mx \<le> 2" by simp_all
    note bs = b1[unfolded mn_def] b2[unfolded mx_def]
    have a: "col_scale col = Fin s"
      by (rule col_scale_bounded(1)[OF 1 2 b1 3 b2 s_def])
    have b': "col_min col = Fin (- rd64 (mn * s))"
      by (rule col_min_bounded[OF 1 2 b1 3 b2 s_def])
    have c1: "nanmin col' = Fin 0"
      unfolding t c by (rule rescale_col_min_max(1)[OF ne bs refl])
    have c2: "nanmax col' = Fin (rd64 (rd64 (mx * s) - rd64 (mn * s)))"
      unfolding t c s_def mx_def mn_def by (rule rescale_col_min_max(2)[OF ne bs refl])
    have d: "nanmax col' = Fin 0" if "mx = mn"
      unfolding t c using that by (intro rescale_col_constant[OF ne bs]) (simp add: mx_def mn_def)
    have e: "\<bar>rd64 (rd64 (mx * s) - rd64 (mn * s)) - 1\<bar> \<le> 1 / 10 ^ 6" if "1 / 2 ^ 20 \<le> mx - mn"
      using rescaled_max_close[OF b1 b2 that] unfolding s_def by simp
    have g: "mn = 0" if "col' = col"
      using c1 1 unfolding that by simp
    have h: "col' = col" if "mn = 0 \<and> mx = 1 \<and> (\<forall>v. Fin v \<in> set col \<longrightarrow> rd64 v = v)"
    proof -
      from that have "Min (set vs) = 0" "Max (set vs) = 1" "\<forall>v \<in> set vs. rd64 v = v"
        by (auto simp: mn_def mx_def c)
      from rescale_col_unchanged[OF ne this] show ?thesis
        unfolding t c .
    qed
    from a b' c1 c2 d e g h show ?thesis by blast
  qed
  from 1 2 3 4 5 s_def show ?thesis
    unfolding col_def col'_def by blast
qed

text \<open>
  An instance where the second scaling changes the values: the smallest Close of the
  table sits in a warm-up row, which the normalizing cell sees and \<open>dropna\<close> removes.
\<close>

lemma rnd64_3: "rnd64 (3) = Fin (3)"
proof -
  have "rnd64 (3) =
          Fin (of_int (round_even ((3) / 2 powr of_int (1 - 52))) * 2 powr of_int (1 - 52))"
    by (rule rnd64_eval) (simp_all add: powr_minus_divide)
  then show ?thesis
    by (simp add: powr_minus_divide round_even_def Let_def)
qed

lemma rnd64_third: "rnd64 (1 / 3) = Fin (6004799503160661 / 18014398509481984)"
proof -
  have "rnd64 (1 / 3) =
          Fin (of_int (round_even ((1 / 3) / 2 powr of_int (-2 - 52))) * 2 powr of_int (-2 - 52))"
    by (rule rnd64_eval) (simp_all add: powr_minus_divide)
  then show ?thesis
    by (simp add: powr_minus_divide round_even_def Let_def)
qed

lemma rnd64_sc: "rnd64 (6004799503160661 / 18014398509481984) = Fin (6004799503160661 / 18014398509481984)"
proof -
  have "rnd64 (6004799503160661 / 18014398509481984) =
          Fin (of_int (round_even ((6004799503160661 / 18014398509481984) / 2 powr of_int (-2 - 52))) * 2 powr of_int (-2 - 52))"
    by (rule rnd64_eval) (simp_all add: powr_minus_divide)
  then show ?thesis
    by (simp add: powr_minus_divide round_even_def Let_def)
qed

lemma rnd64_3sc: "rnd64 (18014398509481983 / 18014398509481984) = Fin (1)"
proof -
  have "rnd64 (18014398509481983 / 18014398509481984) =
          Fin (of_int (round_even ((18014398509481983 / 18014398509481984) / 2 powr of_int (-1 - 52))) * 2 powr of_int (-1 - 52))"
    by (rule rnd64_eval) (simp_all add: powr_minus_divide)
  then show ?thesis
    by (simp add: powr_minus_divide round_even_def Let_def)
qed

lemma rnd64_range2: "rnd64 (12009599006321323 / 18014398509481984) = Fin (3002399751580331 / 4503599627370496)"
proof -
  have "rnd64 (12009599006321323 / 18014398509481984) =
          Fin (of_int (round_even ((12009599006321323 / 18014398509481984) / 2 powr of_int (-1 - 52))) * 2 powr of_int (-1 - 52))"
    by (rule rnd64_eval) (simp_all add: powr_minus_divide)
  then show ?thesis
    by (simp add: powr_minus_divide round_even_def Let_def)
qed

lemma rnd64_scale2: "rnd64 (4503599627370496 / 3002399751580331) = Fin (6755399441055743 / 4503599627370496)"
proof -
  have "rnd64 (4503599627370496 / 3002399751580331) =
          Fin (of_int (round_even ((4503599627370496 / 3002399751580331) / 2 powr of_int (0 - 52))) * 2 powr of_int (0 - 52))"
    by (rule rnd64_eval) (simp_all add: powr_minus_divide)
  then show ?thesis
    by (simp add: powr_minus_divide round_even_def Let_def)
qed

lemma rnd64_scale2_idem: "rnd64 (6755399441055743 / 4503599627370496) = Fin (6755399441055743 / 4503599627370496)"
proof -
  have "rnd64 (6755399441055743 / 4503599627370496) =
          Fin (of_int (round_even ((6755399441055743 / 4503599627370496) / 2 powr of_int (0 - 52))) * 2 powr of_int (0 - 52))"
    by (rule rnd64_eval) (simp_all add: powr_minus_divide)
  then show ?thesis
    by (simp add: powr_minus_divide round_even_def Let_def)
qed

lemma rnd64_offset2: "rnd64 (40564819207303332591295185726123 / 81129638414606681695789005144064) = Fin (4503599627370495 / 9007199254740992)"
proof -
  have "rnd64 (40564819207303332591295185726123 / 81129638414606681695789005144064) =
          Fin (of_int (round_even ((40564819207303332591295185726123 / 81129638414606681695789005144064) / 2 powr of_int (-2 - 52))) * 2 powr of_int (-2 - 52))"
    by (rule rnd64_eval) (simp_all add: powr_minus_divide)
  then show ?thesis
    by (simp add: powr_minus_divide round_even_def Let_def)
qed

lemma rnd64_offset2_neg: "rnd64 (- (4503599627370495 / 9007199254740992)) = Fin (- (4503599627370495 / 9007199254740992))"
proof -
  have "rnd64 (- (4503599627370495 / 9007199254740992)) =
          Fin (of_int (round_even ((- (4503599627370495 / 9007199254740992)) / 2 powr of_int (-2 - 52))) * 2 powr of_int (-2 - 52))"
    by (rule rnd64_eval) (simp_all add: powr_minus_divide)
  then show ?thesis
    by (simp add: powr_minus_divide round_even_def Let_def)
qed

lemma rnd64_max2: "rnd64 (9007199254740991 / 9007199254740992) = Fin (9007199254740991 / 9007199254740992)"
proof -
  have "rnd64 (9007199254740991 / 9007199254740992) =
          Fin (of_int (round_even ((9007199254740991 / 9007199254740992) / 2 powr of_int (-1 - 52))) * 2 powr of_int (-1 - 52))"
    by (rule rnd64_eval) (simp_all add: powr_minus_divide)
  then show ?thesis
    by (simp add: powr_minus_divide round_even_def Let_def)
qed

lemma normalize_warmup_table: "normalize warmup_table = Inr once_scaled"
  using rnd64_3 rnd64_third rnd64_sc rnd64_3sc
  by (simp add: normalize_def warmup_table_def once_scaled_def flat_row_def features_def
        scaler_eval upt_12)

lemma dropna_once_scaled:
  "dropna once_scaled = [flat_row (6004799503160661 / 18014398509481984), flat_row 1]"
  by (simp add: once_scaled_def dropna_def flat_row_def features_def isnan_def)

lemma TradeDataset_init_once_scaled: "TradeDataset_init once_scaled 2 = Inr twice_scaled"
  unfolding TradeDataset_init_def dropna_once_scaled twice_scaled_def
  using rnd64_range2 rnd64_scale2 rnd64_scale2_idem rnd64_offset2 rnd64_offset2_neg rnd64_max2
  by (simp add: flat_row_def features_def scaler_eval upt_12)

text \<open>
  Claim C4 as stated fails on the code in two ways. In the dataset built from the
  once-scaled table the Close column (position 0) has the maximum
  9007199254740991 / 2^53 = 0.9999999999999999 after the second fit, not 1: the float64
  scale and offset do not map the maximum onto 1 exactly. And in the dataset built from
  \<open>ramp 3\<close> the Volume column (position 1) is constant over the retained rows, so it is
  all zeros after the second fit and its maximum is 0.
\<close>

theorem second_scaling_counterexample:
  "TradeDataset_init once_scaled 2 = Inr twice_scaled \<and>
   nanmax (column (map features (td_data twice_scaled)) 0)
     = Fin (9007199254740991 / 9007199254740992) \<and>
   (9007199254740991 / 9007199254740992 :: real) \<noteq> 1 \<and>
   TradeDataset_init (ramp 3) 2 = Inr ramp_dataset \<and>
   column (map features (td_data ramp_dataset)) 1 = [Fin 0, Fin 0, Fin 0] \<and>
   nanmax (column (map features (td_data ramp_dataset)) 1) = Fin 0"
proof -
  have a: "nanmax (column (map features (td_data twice_scaled)) 0)
     = Fin (9007199254740991 / 9007199254740992)"
    by (simp add: twice_scaled_def column_def features_def flat_row_def nanmax_def)
  have c: "column (map features (td_data ramp_dataset)) 1 = [Fin 0, Fin 0, Fin 0]"
    by (simp add: ramp_dataset_def column_def features_def flat_row_def)
  have "nanmax (column (map features (td_data ramp_dataset)) 1) = Fin 0"
    unfolding c by (simp add: nanmax_def)
  with a c TradeDataset_init_once_scaled TradeDataset_init_ramp_3 show ?thesis
    by simp
qed

text \<open>
  Claim C4, amended. The constructor raises ValueError exactly when \<open>dropna\<close> leaves no
  row or a retained feature cell is infinite. Otherwise it holds, in each of the 12
  feature columns, the retained cells passed through the scaler fitted on the retained
  rows alone, \<open>x * scale + min_\<close> in float64; the Close targets are column 0 of these
  values. Every retained cell is finite. For a column whose retained cells lie between
  -2 and 2 (the once-scaled cells do), with minimum mn and maximum mx: the scale is
  \<open>s = 1 / (mx - mn)\<close> rounded twice, or 1 when the rounded range is below ten machine
  epsilons; the offset is the rounded \<open>mn * s\<close>, negated; the minimum of the re-scaled
  column is exactly 0; its maximum is the re-scaled maximum
  \<open>rd64 (rd64 (mx * s) - rd64 (mn * s))\<close>, which is 0 for a constant column and within
  10^-6 of 1 (not always equal to 1) when the range is at least 2^-20. The re-scaled
  column differs from the column it was computed from whenever that column's minimum is
  not 0; it is unchanged when the minimum is 0, the maximum is 1 and the cells are
  float64 numbers.
\<close>

theorem second_scaling:
  "(TradeDataset_init data sl = Inl ValueError \<longleftrightarrow>
      dropna data = [] \<or> list_ex (\<lambda>r. list_ex isinf (features r)) (dropna data)) \<and>
   (\<forall>self. TradeDataset_init data sl = Inr self \<longrightarrow>
      map Close (td_data self) = column (map features (td_data self)) 0 \<and>
      (\<forall>j < 12. \<exists>mn mx s.
           nanmin (column (map features (dropna data)) j) = Fin mn \<and>
           nanmax (column (map features (dropna data)) j) = Fin mx \<and> mn \<le> mx \<and>
           s = (if rd64 (mx - mn) < 10 * eps then 1 else rd64 (1 / rd64 (mx - mn))) \<and>
           column (map features (td_data self)) j =
             map (\<lambda>x. fadd64 (fmul64 x (col_scale (column (map features (dropna data)) j)))
                              (col_min (column (map features (dropna data)) j)))
                 (column (map features (dropna data)) j) \<and>
           (- 2 \<le> mn \<and> mx \<le> 2 \<longrightarrow>
              col_scale (column (map features (dropna data)) j) = Fin s \<and>
              col_min (column (map features (dropna data)) j) = Fin (- rd64 (mn * s)) \<and>
              nanmin (column (map features (td_data self)) j) = Fin 0 \<and>
              nanmax (column (map features (td_data self)) j)
                = Fin (rd64 (rd64 (mx * s) - rd64 (mn * s))) \<and>
              (mx = mn \<longrightarrow> nanmax (column (map features (td_data self)) j) = Fin 0) \<and>
              (1 / 2 ^ 20 \<le> mx - mn \<longrightarrow>
                 \<bar>rd64 (rd64 (mx * s) - rd64 (mn * s)) - 1\<bar> \<le> 1 / 10 ^ 6) \<and>
              (column (map features (td_data self)) j = column (map features (dropna data)) j
                 \<longrightarrow> mn = 0) \<and>
              (mn = 0 \<and> mx = 1 \<and>
               (\<forall>v. Fin v \<in> set (column (map features (dropna data)) j) \<longrightarrow> rd64 v = v) \<longrightarrow>
                 column (map features (td_data self)) j = column (map features (dropna data)) j))))"
proof (intro conjI allI impI)
  show "TradeDataset_init data sl = Inl ValueError \<longleftrightarrow>
      dropna data = [] \<or> list_ex (\<lambda>r. list_ex isinf (features r)) (dropna data)"
    by (rule TradeDataset_init_error_iff)
next
  fix self
  show "map Close (td_data self) = column (map features (td_data self)) 0"
    by (rule close_column)
next
  fix self j assume i: "TradeDataset_init data sl = Inr self" and j: "j < (12::nat)"
  show "\<exists>mn mx s.
           nanmin (column (map features (dropna data)) j) = Fin mn \<and>
           nanmax (column (map features (dropna data)) j) = Fin mx \<and> mn \<le> mx \<and>
           s = (if rd64 (mx - mn) < 10 * eps then 1 else rd64 (1 / rd64 (mx - mn))) \<and>
           column (map features (td_data self)) j =
             map (\<lambda>x. fadd64 (fmul64 x (col_scale (column (map features (dropna data)) j)))
                              (col_min (column (map features (dropna data)) j)))
                 (column (map features (dropna data)) j) \<and>
           (- 2 \<le> mn \<and> mx \<le> 2 \<longrightarrow>
              col_scale (column (map features (dropna data)) j) = Fin s \<and>
              col_min (column (map features (dropna data)) j) = Fin (- rd64 (mn * s)) \<and>
              nanmin (column (map features (td_data self)) j) = Fin 0 \<and>
              nanmax (column (map features (td_data self)) j)
                = Fin (rd64 (rd64 (mx * s) - rd64 (mn * s))) \<and>
              (mx = mn \<longrightarrow> nanmax (column (map features (td_data self)) j) = Fin 0) \<and>
              (1 / 2 ^ 20 \<le> mx - mn \<longrightarrow>
                 \<bar>rd64 (rd64 (mx * s) - rd64 (mn * s)) - 1\<bar> \<le> 1 / 10 ^ 6) \<and>
              (column (map features (td_data self)) j = column (map features (dropna data)) j
                 \<longrightarrow> mn = 0) \<and>
              (mn = 0 \<and> mx = 1 \<and>
               (\<forall>v. Fin v \<in> set (column (map features (dropna data)) j) \<longrightarrow> rd64 v = v) \<longrightarrow>
                 column (map features (td_data self)) j = column (map features (dropna data)) j))"
    by (rule rescaled_column[OF i j])
qed

theorem second_scaling_witness:
  "normalize warmup_table = Inr once_scaled \<and>
   TradeDataset_init once_scaled 2 = Inr twice_scaled \<and>
   column (map features (dropna once_scaled)) 0
     = [Fin (6004799503160661 / 18014398509481984), Fin 1] \<and>
   column (map features (td_data twice_scaled)) 0
     = [Fin 0, Fin (9007199254740991 / 9007199254740992)] \<and>
   map Close (td_data twice_scaled) = [Fin 0, Fin (9007199254740991 / 9007199254740992)] \<and>
   nanmin (column (map features (td_data twice_scaled)) 0) = Fin 0 \<and>
   nanmax (column (map features (td_data twice_scaled)) 0)
     = Fin (9007199254740991 / 9007199254740992) \<and>
   \<bar>9007199254740991 / 9007199254740992 - 1\<bar> \<le> (1::real) / 10 ^ 6 \<and>
   TradeDataset_init [] 2 = Inl ValueError \<and>
   TradeDataset_init (ramp 3) 2 = Inr ramp_dataset \<and>
   nanmax (column (map features (td_data ramp_dataset)) 2) = Fin 0 \<and>
   (\<exists>self. TradeDataset_init [flat_row 0, flat_row 1] 2 = Inr self \<and>
           column (map features (td_data self)) 0 = [Fin 0, Fin 1])"
proof -
  have c1: "column (map features (dropna once_scaled)) 0
     = [Fin (6004799503160661 / 18014398509481984), Fin 1]"
    by (simp add: dropna_once_scaled column_def features_def flat_row_def)
  have c2: "column (map features (td_data twice_scaled)) 0
     = [Fin 0, Fin (9007199254740991 / 9007199254740992)]"
    by (simp add: twice_scaled_def column_def features_def flat_row_def)
  have mn: "nanmin (column (map features (dropna once_scaled)) 0)
              = Fin (6004799503160661 / 18014398509481984)"
    and mx: "nanmax (column (map features (dropna once_scaled)) 0) = Fin 1"
    unfolding c1 by (simp_all add: nanmin_def nanmax_def)
  have m2: "nanmax (column (map features (td_data twice_scaled)) 0)
     = Fin (9007199254740991 / 9007199254740992)"
    unfolding c2 by (simp add: nanmax_def)
  from second_scaling[of once_scaled 2] TradeDataset_init_once_scaled
  have cl: "map Close (td_data twice_scaled) = column (map features (td_data twice_scaled)) 0"
    and col: "\<forall>j < 12. \<exists>a b s.
           nanmin (column (map features (dropna once_scaled)) j) = Fin a \<and>
           nanmax (column (map features (dropna once_scaled)) j) = Fin b \<and>
           (- 2 \<le> a \<and> b \<le> 2 \<longrightarrow>
              nanmin (column (map features (td_data twice_scaled)) j) = Fin 0 \<and>
              nanmax (column (map features (td_data twice_scaled)) j)
                = Fin (rd64 (rd64 (b * s) - rd64 (a * s))) \<and>
              (1 / 2 ^ 20 \<le> b - a \<longrightarrow>
                 \<bar>rd64 (rd64 (b * s) - rd64 (a * s)) - 1\<bar> \<le> 1 / 10 ^ 6))"
    by blast+
  from col obtain a b s where
    "nanmin (column (map features (dropna once_scaled)) 0) = Fin a"
    "nanmax (column (map features (dropna once_scaled)) 0) = Fin b"
    "- 2 \<le> a \<and> b \<le> 2 \<longrightarrow>
              nanmin (column (map features (td_data twice_scaled)) 0) = Fin 0 \<and>
              nanmax (column (map features (td_data twice_scaled)) 0)
                = Fin (rd64 (rd64 (b * s) - rd64 (a * s))) \<and>
              (1 / 2 ^ 20 \<le> b - a \<longrightarrow>
                 \<bar>rd64 (rd64 (b * s) - rd64 (a * s)) - 1\<bar> \<le> 1 / 10 ^ 6)"
    by (metis zero_less_numeral)
  with mn mx m2 have r: "nanmin (column (map features (td_data twice_scaled)) 0) = Fin 0"
    "\<bar>9007199254740991 / 9007199254740992 - 1\<bar> \<le> (1::real) / 10 ^ 6"
    by simp_all
  from second_scaling[of "[]" 2] have e: "TradeDataset_init [] 2 = Inl ValueError"
    by (simp add: dropna_def)
  have d3: "dropna (ramp 3) = [flat_row 0, flat_row 1, flat_row 2]"
    by (simp add: ramp_3 dropna_def flat_row_def features_def isnan_def)
  have k1: "column (map features (dropna (ramp 3))) 2 = [Fin 0, Fin 0, Fin 0]"
    by (simp add: d3 column_def features_def flat_row_def)
  have kn: "nanmin [Fin 0, Fin 0, Fin 0] = Fin 0" "nanmax [Fin 0, Fin 0, Fin 0] = Fin 0"
    by (simp_all add: nanmin_def nanmax_def)
  have j2: "(2::nat) < 12" by simp
  from second_scaling[of "ramp 3" 2] TradeDataset_init_ramp_3
  have "\<forall>j < 12. \<exists>a b.
           nanmin (column (map features (dropna (ramp 3))) j) = Fin a \<and>
           nanmax (column (map features (dropna (ramp 3))) j) = Fin b \<and>
           (- 2 \<le> a \<and> b \<le> 2 \<longrightarrow>
              (b = a \<longrightarrow> nanmax (column (map features (td_data ramp_dataset)) j) = Fin 0))"
    by blast
  from this[rule_format, OF j2] obtain a' b' where
    "nanmin (column (map features (dropna (ramp 3))) 2) = Fin a'"
    "nanmax (column (map features (dropna (ramp 3))) 2) = Fin b'"
    "- 2 \<le> a' \<and> b' \<le> 2 \<longrightarrow>
       (b' = a' \<longrightarrow> nanmax (column (map features (td_data ramp_dataset)) 2) = Fin 0)"
    by (metis one_less_numeral_iff semiring_norm(76))
  then have z: "nanmax (column (map features (td_data ramp_dataset)) 2) = Fin 0"
    by (simp add: k1 kn)
  have d2: "dropna [flat_row 0, flat_row 1] = [flat_row 0, flat_row 1]"
    by (simp add: dropna_def flat_row_def features_def isnan_def)
  have k0: "column (map features [flat_row 0, flat_row 1]) 0 = [Fin 0, Fin 1]"
    by (simp add: column_def features_def flat_row_def)
  have kb: "nanmin [Fin 0, Fin 1] = Fin 0" "nanmax [Fin 0, Fin 1] = Fin 1"
    by (simp_all add: nanmin_def nanmax_def)
  note w = second_scaling[of "[flat_row 0, flat_row 1]" 2]
  have "\<not> (dropna [flat_row 0, flat_row 1] = [] \<or>
           list_ex (\<lambda>r. list_ex isinf (features r)) (dropna [flat_row 0, flat_row 1]))"
    unfolding d2 by (simp add: flat_row_def features_def isinf_def)
  with w[THEN conjunct1] have "TradeDataset_init [flat_row 0, flat_row 1] 2 \<noteq> Inl ValueError"
    by blast
  with TradeDataset_init_cases[of "[flat_row 0, flat_row 1]" 2] obtain self
    where self: "TradeDataset_init [flat_row 0, flat_row 1] 2 = Inr self"
    by blast
  from w self
  have "\<forall>j < 12. \<exists>a b.
           nanmin (column (map features (dropna [flat_row 0, flat_row 1])) j) = Fin a \<and>
           nanmax (column (map features (dropna [flat_row 0, flat_row 1])) j) = Fin b \<and>
           (- 2 \<le> a \<and> b \<le> 2 \<longrightarrow>
              (a = 0 \<and> b = 1 \<and>
               (\<forall>v. Fin v \<in> set (column (map features (dropna [flat_row 0, flat_row 1])) j)
                      \<longrightarrow> rd64 v = v) \<longrightarrow>
                 column (map features (td_data self)) j
                   = column (map features (dropna [flat_row 0, flat_row 1])) j))"
    by blast
  then obtain a'' b'' where
    "nanmin (column (map features (dropna [flat_row 0, flat_row 1])) 0) = Fin a''"
    "nanmax (column (map features (dropna [flat_row 0, flat_row 1])) 0) = Fin b''"
    "- 2 \<le> a'' \<and> b'' \<le> 2 \<longrightarrow>
              (a'' = 0 \<and> b'' = 1 \<and>
               (\<forall>v. Fin v \<in> set (column (map features (dropna [flat_row 0, flat_row 1])) 0)
                      \<longrightarrow> rd64 v = v) \<longrightarrow>
                 column (map features (td_data self)) 0
                   = column (map features (dropna [flat_row 0, flat_row 1])) 0)"
    by (metis zero_less_numeral)
  then have "column (map features (td_data self)) 0 = [Fin 0, Fin 1]"
    unfolding d2 k0 kb by auto
  with self have u: "\<exists>self. TradeDataset_init [flat_row 0, flat_row 1] 2 = Inr self \<and>
           column (map features (td_data self)) 0 = [Fin 0, Fin 1]"
    by blast
  from normalize_warmup_table TradeDataset_init_once_scaled c1 c2 cl m2 r e
    TradeDataset_init_ramp_3 z u
  show ?thesis
    by simp
qed

text \<open>
  A range that overflows: with the cells -2^1023 and 2^1023 the float64 range is
  infinite, and the fitted scale is 1 / inf = 0.
\<close>

lemma rnd64_overflow: "rnd64 (2 ^ 1024) = PInf"
proof -
  have "rd64 (2 powr of_int 1024) = 2 powr of_int 1024"
    by (rule rd64_pow2) simp
  moreover have "(2::real) powr of_int 1024 = 2 ^ 1024"
    by (simp add: powr_realpow[symmetric])
  ultimately have "rd64 (2 ^ 1024) = 2 ^ 1024"
    by simp
  then show ?thesis
    by (simp add: rnd64_def)
qed

lemma col_scale_overflow: "col_scale [Fin (- (2 ^ 1023)), Fin (2 ^ 1023)] = Fin 0"
proof -
  have "fsub64 (Fin (2 ^ 1023)) (Fin (- (2 ^ 1023))) = rnd64 (2 ^ 1024)"
    by (simp add: fsub64_def fadd64_def)
  then have "fsub64 (Fin (2 ^ 1023)) (Fin (- (2 ^ 1023))) = PInf"
    by (simp only: rnd64_overflow)
  moreover have "nanmax [Fin (- (2 ^ 1023)), Fin (2 ^ 1023)] = Fin (2 ^ 1023)"
    "nanmin [Fin (- (2 ^ 1023)), Fin (2 ^ 1023)] = Fin (- (2 ^ 1023))"
    by (simp_all add: nanmax_def nanmin_def)
  ultimately show ?thesis
    by (simp add: col_scale_def handle_zeros_in_scale_def fdiv64_def)
qed

section \<open>Properties of the indicator engine\<close>

text \<open>
  Every building block keeps the length of its input.
\<close>

lemma length_series_diff: "length (series_diff s) = length s"
  by (cases s) (simp_all add: series_diff_def)



lemma length_rolling: "length (rolling w agg s) = length s"
  by (simp add: rolling_def Let_def)




lemma ewm_mean_span_0: "ewm_mean 0 mp s = Inl ValueError"
  by (simp add: ewm_mean_def)



lemma length_calculate_rsi: "length (calculate_rsi series period) = length series"
  by (simp add: calculate_rsi_def calculate_rsi_gain_def calculate_rsi_loss_def Let_def
        length_rolling length_series_diff)



lemma length_calculate_stochastic:
  assumes "length high = n" "length low = n" "length close = n"
  shows "length (fst (calculate_stochastic high low close period)) = n"
    and "length (snd (calculate_stochastic high low close period)) = n"
  using assms by (simp_all add: calculate_stochastic_def Let_def length_rolling)

lemma length_calculate_bollinger_bands:
  "length (fst (calculate_bollinger_bands series period)) = length series"
  "length (fst (snd (calculate_bollinger_bands series period))) = length series"
  "length (snd (snd (calculate_bollinger_bands series period))) = length series"
  by (simp_all add: calculate_bollinger_bands_def Let_def length_rolling)

text \<open>
  The window operations see an infinite cell as a missing one.
\<close>

lemma nth_prep_values:
  "k < length s \<Longrightarrow> prep_values s ! k = (if isinf (s ! k) then NaN else s ! k)"
  by (simp add: prep_values_def)

lemma prep_values_id:
  assumes "\<forall>x \<in> set s. \<not> isinf x"
  shows "prep_values s = s"
  using assms by (simp add: prep_values_def map_idI)

lemma window_at_prep_values: "window_at w (prep_values s) t = prep_values (window_at w s t)"
  by (simp add: window_at_def prep_values_def take_map drop_map)

lemma isnan_prep_values: "isnan (if isinf x then NaN else x) \<longleftrightarrow> \<not> isfinite x"
  by (cases x) (simp_all add: isnan_def isinf_def isfinite_def)

lemma filter_prep_values:
  "length (filter (\<lambda>x. \<not> isnan x) (prep_values s)) = length (filter isfinite s)"
  by (induction s) (simp_all add: prep_values_def isnan_prep_values)



text \<open>
  A rolling aggregate is NaN unless the window holds \<open>w\<close> finite cells; then it is the
  aggregate of the window.
\<close>

lemma nth_rolling:
  "t < length s \<Longrightarrow>
   rolling w agg s ! t =
     (if length (filter isfinite (window_at w s t)) < w then NaN
      else agg (prep_values (window_at w s t)))"
  by (simp add: rolling_def Let_def window_at_prep_values filter_prep_values)

lemma length_window_at: "t < length s \<Longrightarrow> length (window_at w s t) = min w (Suc t)"
  by (auto simp: window_at_def)

lemma rolling_warmup:
  assumes "t < length s" "Suc t < w"
  shows "rolling w agg s ! t = NaN"
proof -
  have "length (filter isfinite (window_at w s t)) \<le> length (window_at w s t)"
    by (rule length_filter_le)
  also have "\<dots> < w"
    using assms by (simp add: length_window_at)
  finally show ?thesis
    by (simp add: nth_rolling[OF assms(1)])
qed


lemma window_at_elem:
  assumes "x \<in> set (window_at w s t)" "t < length s"
  shows "\<exists>k. k \<le> t \<and> t < k + w \<and> x = s ! k"
proof -
  from assms(1) obtain i where i: "i < length (window_at w s t)" and x: "window_at w s t ! i = x"
    by (metis in_set_conv_nth)
  from i have i': "i < min w (Suc t)"
    by (simp add: length_window_at[OF assms(2)])
  have b: "Suc t - w + i \<le> t" "t < Suc t - w + i + w"
    using i' by linarith+
  then have "Suc t - w + i < Suc t" by simp
  then have "window_at w s t ! i = s ! (Suc t - w + i)"
    using i' assms(2) by (simp add: window_at_def)
  with b show ?thesis
    using x by metis
qed




lemma rolling_full:
  assumes "t < length s" "w \<le> Suc t" "\<forall>k. k \<le> t \<and> t < k + w \<longrightarrow> isfinite (s ! k)"
  shows "rolling w agg s ! t = agg (window_at w s t)"
    and "\<forall>x \<in> set (window_at w s t). isfinite x"
    and "length (window_at w s t) = w"
proof -
  show f: "\<forall>x \<in> set (window_at w s t). isfinite x"
    using window_at_elem[OF _ assms(1)] assms(3) by metis
  show l: "length (window_at w s t) = w"
    using assms(2) by (simp add: length_window_at[OF assms(1)])
  from f have "filter isfinite (window_at w s t) = window_at w s t"
    by (simp add: filter_id_conv)
  moreover from f have "prep_values (window_at w s t) = window_at w s t"
    by (intro prep_values_id) (auto simp: isinf_def isfinite_def)
  ultimately show "rolling w agg s ! t = agg (window_at w s t)"
    by (simp add: nth_rolling[OF assms(1)] l)
qed


lemma fadd_NaN [simp]: "fadd x NaN = NaN"
  by (cases x) simp_all

lemma fmul_NaN [simp]: "fmul x NaN = NaN"
  by (cases x) simp_all

lemma fdiv_NaN [simp]: "fdiv x NaN = NaN"
  by (cases x) simp_all

lemma fsub_NaN [simp]: "fsub x NaN = NaN" "fsub NaN x = NaN"
  by (simp_all add: fsub_def)

lemma fmaximum_NaN [simp]: "fmaximum x NaN = NaN" "fmaximum NaN x = NaN"
  by (simp_all add: fmaximum_def)

lemma isfinite_iff: "isfinite x \<longleftrightarrow> (\<exists>v. x = Fin v)"
  by (cases x) (simp_all add: isfinite_def)









lemma foldl_fadd_nonneg:
  assumes "\<forall>x \<in> set xs. \<exists>v. x = Fin v \<and> 0 \<le> v" "0 \<le> a"
  shows "\<exists>S. foldl fadd (Fin a) xs = Fin S \<and> 0 \<le> S"
  using assms
proof (induction xs arbitrary: a)
  case Nil
  then show ?case by simp
next
  case (Cons x xs)
  then obtain v where v: "x = Fin v" "0 \<le> v" by auto
  with Cons.prems have "0 \<le> a + v" by simp
  from Cons.IH[OF _ this] Cons.prems(1) show ?case
    by (simp add: v)
qed




lemma nth_series_diff:
  "k < length s \<Longrightarrow> series_diff s ! k = (if k = 0 then NaN else fsub (s ! k) (s ! (k - 1)))"
  by (cases s; cases k) (simp_all add: series_diff_def)


lemma fmean_nonneg_nonempty:
  assumes "\<forall>x \<in> set xs. \<exists>v. x = Fin v \<and> 0 \<le> v" "xs \<noteq> []"
  shows "\<exists>m. fmean xs = Fin m \<and> 0 \<le> m"
proof -
  from foldl_fadd_nonneg[OF assms(1), of 0] obtain S where S: "fsum xs = Fin S" "0 \<le> S"
    by (auto simp: fsum_def)
  from assms(2) have "0 < real (length xs)" by simp
  with S show ?thesis
    by (simp add: fmean_def)
qed



lemma raw_gain_nonneg:
  assumes "d = NaN \<or> isfinite d"
  shows "\<exists>v. (if fgt d (Fin 0) then d else Fin 0) = Fin v \<and> 0 \<le> v"
  using assms by (cases d) (auto simp: fgt_def isfinite_def)


lemma diff_finite_or_nan:
  assumes "k < length s" "isfinite (s ! k)" "0 < k \<longrightarrow> isfinite (s ! (k - 1))"
  shows "series_diff s ! k = NaN \<or> isfinite (series_diff s ! k)"
proof (cases "k = 0")
  case True
  with assms(1) show ?thesis by (simp add: nth_series_diff)
next
  case False
  with assms obtain a b where "s ! k = Fin a" "s ! (k - 1) = Fin b"
    by (auto simp: isfinite_iff)
  with False assms(1) show ?thesis
    by (simp add: nth_series_diff fsub_def isfinite_def)
qed


lemma nth_calculate_rsi:
  assumes "t < length series"
  shows "calculate_rsi series period ! t =
           fsub (Fin 100) (fdiv (Fin 100) (fadd (Fin 1)
             (fdiv (calculate_rsi_gain series period ! t) (calculate_rsi_loss series period ! t))))"
  using assms
  by (simp add: calculate_rsi_def Let_def calculate_rsi_gain_def calculate_rsi_loss_def
        length_rolling length_series_diff)




lemma rsi_gain_full_window:
  assumes "t < length series" and "calculate_rsi_loss series period ! t = Fin 0"
    and f: "\<forall>k. k \<le> t \<and> t \<le> k + period \<longrightarrow> isfinite (series ! k)"
  shows "\<exists>g. calculate_rsi_gain series period ! t = Fin g \<and> 0 \<le> g"
proof -
  define raw_l where "raw_l = map fneg (map (\<lambda>d. if flt d (Fin 0) then d else Fin 0) (series_diff series))"
  define raw_g where "raw_g = map (\<lambda>d. if fgt d (Fin 0) then d else Fin 0) (series_diff series)"
  have tl: "t < length raw_l" and tg: "t < length raw_g"
    using assms(1) by (simp_all add: raw_l_def raw_g_def length_series_diff)
  have loss: "calculate_rsi_loss series period = rolling period fmean raw_l"
    and gain: "calculate_rsi_gain series period = rolling period fmean raw_g"
    by (simp_all add: calculate_rsi_loss_def calculate_rsi_gain_def raw_l_def raw_g_def)
  have pt: "period \<le> Suc t"
  proof (rule ccontr)
    assume "\<not> period \<le> Suc t"
    then have "Suc t < period" by simp
    from rolling_warmup[OF tl this] assms(2) show False
      by (simp add: loss)
  qed
  have p0: "period \<noteq> 0"
  proof
    assume "period = 0"
    then have "rolling period fmean raw_l ! t = NaN"
      by (simp add: nth_rolling[OF tl] window_at_def prep_values_def fmean_def fsum_def)
    with assms(2) show False by (simp add: loss)
  qed
  have d: "series_diff series ! k = NaN \<or> isfinite (series_diff series ! k)"
    if "k \<le> t" "t < k + period" for k
  proof (rule diff_finite_or_nan)
    show "k < length series" using that assms(1) by simp
    show "isfinite (series ! k)" using that f by simp
    show "0 < k \<longrightarrow> isfinite (series ! (k - 1))"
    proof
      assume "0 < k"
      with that have "k - 1 \<le> t \<and> t \<le> k - 1 + period" by linarith
      with f show "isfinite (series ! (k - 1))" by blast
    qed
  qed
  have g: "\<exists>v. raw_g ! k = Fin v \<and> 0 \<le> v" if "k \<le> t \<and> t < k + period" for k
  proof -
    from that have "k < length (series_diff series)" using assms(1) by (simp add: length_series_diff)
    with raw_gain_nonneg[OF d] that show ?thesis
      by (simp add: raw_g_def)
  qed
  then have fin: "\<forall>k. k \<le> t \<and> t < k + period \<longrightarrow> isfinite (raw_g ! k)"
    by (auto simp: isfinite_iff)
  note r = rolling_full[OF tg pt fin]
  have elems: "\<forall>x \<in> set (window_at period raw_g t). \<exists>v. x = Fin v \<and> 0 \<le> v"
    using window_at_elem[OF _ tg] g by metis
  from p0 r(3) have "window_at period raw_g t \<noteq> []" by auto
  from fmean_nonneg_nonempty[OF elems this] show ?thesis
    unfolding gain r(1) .
qed

text \<open>
  Claim C8, amended. \<open>calculate_rsi\<close> returns a series of the input's length for every
  input (the division raises nothing). Where the rolling mean loss is zero, the RSI is
  100 when the rolling mean gain is not zero (the quotient is infinite and
  \<open>100 / (1 + inf) = 0\<close>), and missing (NaN) when the mean gain is zero as well or is
  itself missing. With finite Close entries in the lookback the mean gain is a finite
  number, not negative, so the RSI is 100 for a positive gain and missing for a zero gain.
\<close>

theorem rsi_zero_loss:
  assumes "t < length series" and "calculate_rsi_loss series period ! t = Fin 0"
  shows "length (calculate_rsi series period) = length series \<and>
         calculate_rsi series period ! t =
           (if calculate_rsi_gain series period ! t = Fin 0
               \<or> calculate_rsi_gain series period ! t = NaN then NaN else Fin 100) \<and>
         ((\<forall>k. k \<le> t \<and> t \<le> k + period \<longrightarrow> isfinite (series ! k)) \<longrightarrow>
            (\<exists>g. calculate_rsi_gain series period ! t = Fin g \<and> 0 \<le> g))"
proof -
  have a: "calculate_rsi series period ! t =
           (if calculate_rsi_gain series period ! t = Fin 0
               \<or> calculate_rsi_gain series period ! t = NaN then NaN else Fin 100)"
    unfolding nth_calculate_rsi[OF assms(1)] assms(2)
    by (cases "calculate_rsi_gain series period ! t") (simp_all add: fsub_def)
  have b: "\<exists>g. calculate_rsi_gain series period ! t = Fin g \<and> 0 \<le> g"
    if f: "\<forall>k. k \<le> t \<and> t \<le> k + period \<longrightarrow> isfinite (series ! k)"
    using rsi_gain_full_window[OF assms f] .
  from a b show ?thesis
    by (simp add: length_calculate_rsi)
qed


lemmas rolling_eval = rolling_def prep_values_def isinf_def window_at_def isnan_def fmean_def
  fsum_def upt_rec Let_def

lemma series_diff_rising14:
  "series_diff rising14 = [NaN, Fin 1, Fin 1, Fin 1, Fin 1, Fin 1, Fin 1, Fin 1, Fin 1, Fin 1,
               Fin 1, Fin 1, Fin 1, Fin 1]"
  by (simp add: rising14_def series_diff_def fsub_def)

lemma rsi_loss_rising14: "calculate_rsi_loss rising14 14 ! 13 = Fin 0"
proof -
  have "length (map fneg (map (\<lambda>d. if flt d (Fin 0) then d else Fin 0) (series_diff rising14))) = 14"
    by (simp add: series_diff_rising14)
  then have t: "13 < length (map fneg (map (\<lambda>d. if flt d (Fin 0) then d else Fin 0) (series_diff rising14)))"
    by simp
  show ?thesis
    unfolding calculate_rsi_loss_def nth_rolling[OF t]
    by (simp add: series_diff_rising14 window_at_def isfinite_def prep_values_def isinf_def
          fmean_def fsum_def)
qed

lemma rsi_gain_rising14: "calculate_rsi_gain rising14 14 ! 13 = Fin (13 / 14)"
proof -
  have "length (map (\<lambda>d. if fgt d (Fin 0) then d else Fin 0) (series_diff rising14)) = 14"
    by (simp add: series_diff_rising14)
  then have t: "13 < length (map (\<lambda>d. if fgt d (Fin 0) then d else Fin 0) (series_diff rising14))"
    by simp
  show ?thesis
    unfolding calculate_rsi_gain_def nth_rolling[OF t]
    by (simp add: series_diff_rising14 window_at_def isfinite_def prep_values_def isinf_def
          fmean_def fsum_def fgt_def)
qed

lemma length_rising14: "length rising14 = 14"
  by (simp add: rising14_def)

text \<open>
  Claim C8 as stated fails on the rising series 1, 2, ..., 14 with period 14: at position
  13 the mean loss is zero and the RSI is the finite value 100, not a missing one.
\<close>

theorem rsi_zero_loss_counterexample:
  "calculate_rsi_loss rising14 14 ! 13 = Fin 0 \<and> calculate_rsi rising14 14 ! 13 = Fin 100"
proof -
  have "(13::nat) < length rising14" by (simp add: length_rising14)
  from nth_calculate_rsi[OF this, of 14] rsi_loss_rising14 show ?thesis
    by (simp add: rsi_gain_rising14 fsub_def)
qed

lemma rsi_flat: "calculate_rsi_loss [Fin 1, Fin 1, Fin 1] 2 ! 2 = Fin 0"
  "calculate_rsi_gain [Fin 1, Fin 1, Fin 1] 2 ! 2 = Fin 0"
  by (simp_all add: calculate_rsi_loss_def calculate_rsi_gain_def series_diff_def
        rolling_eval fgt_def fsub_def)

theorem rsi_zero_loss_witness:
  "(13::nat) < length rising14 \<and> calculate_rsi_loss rising14 14 ! 13 = Fin 0 \<and>
   calculate_rsi_gain rising14 14 ! 13 = Fin (13 / 14) \<and>
   length (calculate_rsi rising14 14) = 14 \<and> calculate_rsi rising14 14 ! 13 = Fin 100 \<and>
   (2::nat) < length [Fin 1, Fin 1, Fin 1] \<and>
   calculate_rsi_loss [Fin 1, Fin 1, Fin 1] 2 ! 2 = Fin 0 \<and>
   calculate_rsi_gain [Fin 1, Fin 1, Fin 1] 2 ! 2 = Fin 0 \<and>
   calculate_rsi [Fin 1, Fin 1, Fin 1] 2 ! 2 = NaN"
proof -
  have t: "(13::nat) < length rising14" by (simp add: length_rising14)
  have u: "(2::nat) < length [Fin 1, Fin 1, Fin 1]" by simp
  from rsi_zero_loss[OF t rsi_loss_rising14]
  have a: "length (calculate_rsi rising14 14) = 14" "calculate_rsi rising14 14 ! 13 = Fin 100"
    by (simp_all add: rsi_gain_rising14 length_rising14)
  from rsi_zero_loss[OF u rsi_flat(1)]
  have b: "calculate_rsi [Fin 1, Fin 1, Fin 1] 2 ! 2 = NaN"
    by (simp add: rsi_flat(2))
  from t u a b rsi_loss_rising14 rsi_gain_rising14 rsi_flat show ?thesis
    by blast
qed




















text \<open>
  A span of 0 is refused: MACD and ADX raise ValueError for a zero period, where the
  rolling indicators return a series of NaN.
\<close>

lemma zero_period_raises:
  "calculate_macd series 0 sp sg = Inl ValueError"
  "calculate_dx high low close 0 = Inl ValueError"
  "calculate_adx high low close 0 = Inl ValueError"
  by (simp_all add: calculate_macd_def calculate_dx_def calculate_adx_def ewm_mean_span_0 Let_def)






end
